theory Spec2Isabelle
  imports Complex_Main "HOL-Library.Option_ord"
begin

section \<open>JavaScript values\<close>

text \<open>
  A JavaScript string is a sequence of UTF-16 code units, and \<open>length\<close>, \<open>substring\<close>,
  \<open>trim\<close> and the regular expressions of the source all work on code units. A string is
  therefore a list of code units; \<open>js\<close> turns an ASCII literal into one.

  A JavaScript number is modelled by the rational it denotes: the decimal numerals the
  scraper parses and the prices it compares are read exactly, without the rounding of
  IEEE doubles. \<open>null\<close> (and \<open>NaN\<close>, which every comparison of the source rejects like
  \<open>null\<close>) is \<open>None\<close>.
\<close>

type_synonym jstring = "nat list"

definition js :: "string \<Rightarrow> jstring" where
  "js s = map of_char s"

definition is_digit :: "nat \<Rightarrow> bool" where
  \<comment> \<open>the class \<open>\d\<close>: the ASCII digits only\<close>
  "is_digit c = (48 \<le> c \<and> c \<le> 57)"

definition is_space :: "nat \<Rightarrow> bool" where
  \<comment> \<open>the class \<open>\s\<close>, which is also what \<open>trim\<close> strips: WhiteSpace and LineTerminator\<close>
  "is_space c = (c \<in> set [9, 10, 11, 12, 13, 32, 160, 5760, 8232, 8233, 8239, 8287, 12288, 65279]
                 \<or> (8192 \<le> c \<and> c \<le> 8202))"

definition trim :: "jstring \<Rightarrow> jstring" where
  "trim s = rev (dropWhile is_space (rev (dropWhile is_space s)))"

fun starts_with :: "jstring \<Rightarrow> jstring \<Rightarrow> bool" where
  "starts_with s [] = True"
| "starts_with [] (p # ps) = False"
| "starts_with (c # cs) (p # ps) = (c = p \<and> starts_with cs ps)"

fun includes_js :: "jstring \<Rightarrow> jstring \<Rightarrow> bool" where
  \<comment> \<open>\<open>s.includes(p)\<close>: \<open>p\<close> occurs in \<open>s\<close> as a contiguous run\<close>
  "includes_js [] p = (p = [])"
| "includes_js (c # cs) p = (starts_with (c # cs) p \<or> includes_js cs p)"

definition lower_unit :: "nat \<Rightarrow> jstring" where
  \<comment> \<open>\<open>toLowerCase\<close> on one code unit. ASCII capitals map to their small letters; the two
      other characters whose lower case contains an ASCII letter are the Kelvin sign
      (U+212A, to k) and the dotted capital I (U+0130, to i and U+0307). Every other
      character maps to non-ASCII characters, kept as they are: the source only searches
      the result for ASCII words.\<close>
  "lower_unit c = (if 65 \<le> c \<and> c \<le> 90 then [c + 32]
                   else if c = 8490 then [107]
                   else if c = 304 then [105, 775]
                   else [c])"

definition toLowerCase :: "jstring \<Rightarrow> jstring" where
  "toLowerCase s = concat (map lower_unit s)"

section \<open>PriceScraper.parsePrice\<close>

definition digits1 :: "jstring \<Rightarrow> bool" where
  \<comment> \<open>\<open>^\d+$\<close>\<close>
  "digits1 s = (s \<noteq> [] \<and> list_all is_digit s)"

definition digits_val :: "jstring \<Rightarrow> nat" where
  "digits_val s = foldl (\<lambda>a c. 10 * a + (c - 48)) 0 s"

definition parseFloat :: "jstring \<Rightarrow> rat option" where
  \<comment> \<open>\<open>parseFloat\<close> on the strings \<open>parsePrice\<close> passes to it, which hold digits, dots and
      commas only: the longest prefix \<open>digits [. digits]\<close> with at least one digit is read
      as a decimal numeral, and a string with no such prefix gives \<open>NaN\<close>.\<close>
  "parseFloat s =
     (let ip = takeWhile is_digit s;
          r = drop (length ip) s;
          fp = (case r of [] \<Rightarrow> [] | c # t \<Rightarrow> if c = 46 then takeWhile is_digit t else [])
      in if ip = [] \<and> fp = [] then None
         else Some (of_nat (digits_val ip) + of_nat (digits_val fp) / 10 ^ length fp))"

definition split_decimals :: "nat \<Rightarrow> jstring \<Rightarrow> (jstring \<times> jstring) option" where
  \<comment> \<open>the tail \<open>SEP(\d{2})$\<close> of the first three patterns: the string ends with the
      separator and exactly two digits; gives what is before the separator, and the digits\<close>
  "split_decimals sep s =
     (let n = length s in
      if 3 \<le> n \<and> s ! (n - 3) = sep \<and> is_digit (s ! (n - 2)) \<and> is_digit (s ! (n - 1))
      then Some (take (n - 3) s, drop (n - 2) s) else None)"

fun groups3 :: "jstring \<Rightarrow> bool" where
  \<comment> \<open>\<open>^(?:\.\d{3})*$\<close>\<close>
  "groups3 [] = True"
| "groups3 (p # a # b # c # r) =
     (p = 46 \<and> is_digit a \<and> is_digit b \<and> is_digit c \<and> groups3 r)"
| "groups3 _ = False"

definition thousands :: "jstring \<Rightarrow> bool" where
  \<comment> \<open>\<open>^\d{1,3}(?:\.\d{3})*$\<close>: the leading run of digits has one to three digits (a shorter
      take of a longer run leaves a digit where a dot or the end is required), and groups
      of a dot and three digits follow\<close>
  "thousands s =
     (let h = takeWhile is_digit s in
      1 \<le> length h \<and> length h \<le> 3 \<and> groups3 (drop (length h) s))"

definition match_thousands :: "jstring \<Rightarrow> (jstring \<times> jstring) option" where
  \<comment> \<open>\<open>/^(\d{1,3}(?:\.\d{3})*),(\d{2})$/\<close>\<close>
  "match_thousands s =
     (case split_decimals 44 s of
        None \<Rightarrow> None
      | Some (g, d) \<Rightarrow> if thousands g then Some (g, d) else None)"

definition match_american :: "jstring \<Rightarrow> (jstring \<times> jstring) option" where
  \<comment> \<open>\<open>/^(\d+)\.(\d{2})$/\<close>\<close>
  "match_american s =
     (case split_decimals 46 s of
        None \<Rightarrow> None
      | Some (g, d) \<Rightarrow> if digits1 g then Some (g, d) else None)"

definition match_comma :: "jstring \<Rightarrow> (jstring \<times> jstring) option" where
  \<comment> \<open>\<open>/^(\d+),(\d{2})$/\<close>\<close>
  "match_comma s =
     (case split_decimals 44 s of
        None \<Rightarrow> None
      | Some (g, d) \<Rightarrow> if digits1 g then Some (g, d) else None)"

definition positive :: "rat option \<Rightarrow> rat option" where
  \<comment> \<open>\<open>price > 0 ? price : null\<close>\<close>
  "positive p = (case p of None \<Rightarrow> None | Some v \<Rightarrow> if 0 < v then Some v else None)"

definition brazilian :: "jstring \<times> jstring \<Rightarrow> rat option" where
  \<comment> \<open>the branch of the patterns whose source contains \<open>,(\d{2})\<close> (the first and the
      third): the dots leave the integer part, the comma becomes the decimal point\<close>
  "brazilian m = positive (parseFloat (filter (\<lambda>c. c \<noteq> 46) (fst m) @ [46] @ snd m))"

definition cleanText :: "jstring \<Rightarrow> jstring" where
  \<comment> \<open>\<open>priceText.replace(/[^\d.,]/g, '')\<close>\<close>
  "cleanText priceText = filter (\<lambda>c. is_digit c \<or> c = 46 \<or> c = 44) priceText"

definition directParse :: "jstring \<Rightarrow> rat option" where
  \<comment> \<open>\<open>parseFloat(cleanText.replace(/,/g, '.'))\<close>\<close>
  "directParse ct = parseFloat (map (\<lambda>c. if c = 44 then 46 else c) ct)"

definition reaches_fallback :: "jstring \<Rightarrow> bool" where
  \<comment> \<open>the cleaned text is not empty and none of the four patterns matches it\<close>
  "reaches_fallback priceText =
     (let ct = cleanText priceText in
      ct \<noteq> [] \<and> match_thousands ct = None \<and> match_american ct = None
      \<and> match_comma ct = None \<and> \<not> digits1 ct)"

definition parsePrice :: "jstring \<Rightarrow> rat option" where
  "parsePrice priceText =
     (let ct = cleanText priceText in
      if ct = [] then None
      else case match_thousands ct of
        Some m \<Rightarrow> brazilian m
      | None \<Rightarrow>
     (case match_american ct of
        Some m \<Rightarrow> positive (parseFloat ct)
      | None \<Rightarrow>
     (case match_comma ct of
        Some m \<Rightarrow> brazilian m
      | None \<Rightarrow>
      if digits1 ct then positive (parseFloat ct)
      else (case directParse ct of
              None \<Rightarrow> None
            | Some v \<Rightarrow> if 0 < v \<and> v < 1000000 then Some v else None))))"

section \<open>The parsed document\<close>

text \<open>
  The scraper reads the page through cheerio. What it asks of a loaded document is: the
  elements a selector matches, in document order, or the error thrown for a selector that
  cannot be parsed; the text and the attributes of an element; and, for the five
  patterns that \<open>extractPrice\<close> runs over the serialised page, the first capture group
  of the first match. Selectors and attribute names are opaque keys.
\<close>

record element =
  el_text :: jstring
  el_attr :: "string \<Rightarrow> jstring option"

record document =
  select :: "string \<Rightarrow> jstring + element list"
  html_match :: "nat \<Rightarrow> jstring option"

record siteConfig =
  selectors :: "string list option"
  nameSelectors :: "string list option"

definition emptyConfig :: siteConfig where
  \<comment> \<open>\<open>this.siteConfigs[domain] || {}\<close>\<close>
  "emptyConfig = \<lparr>selectors = None, nameSelectors = None\<rparr>"

definition truthy :: "rat option \<Rightarrow> rat option" where
  \<comment> \<open>\<open>if (price) return price\<close>: neither null nor zero\<close>
  "truthy p = (case p of None \<Rightarrow> None | Some v \<Rightarrow> if v \<noteq> 0 then Some v else None)"

section \<open>PriceScraper.extractPrice\<close>

definition attributes :: "string list" where
  "attributes = [''data-price'', ''value'', ''content'', ''title'']"

fun try_attributes :: "element \<Rightarrow> string list \<Rightarrow> rat option" where
  "try_attributes e [] = None"
| "try_attributes e (a # as) =
     (case el_attr e a of
        None \<Rightarrow> try_attributes e as
      | Some attrValue \<Rightarrow>
          if attrValue = [] then try_attributes e as
          else (case truthy (parsePrice attrValue) of
                  Some v \<Rightarrow> Some v
                | None \<Rightarrow> try_attributes e as))"

fun try_elements :: "element list \<Rightarrow> rat option" where
  "try_elements [] = None"
| "try_elements (e # es) =
     (let text = trim (el_text e) in
      case (if text \<noteq> [] then truthy (parsePrice text) else None) of
        Some v \<Rightarrow> Some v
      | None \<Rightarrow>
          (case try_attributes e attributes of
             Some v \<Rightarrow> Some v
           | None \<Rightarrow> try_elements es))"

definition tryExtractPrice :: "document \<Rightarrow> string \<Rightarrow> rat option" where
  \<comment> \<open>an error of the selector is caught and ignored\<close>
  "tryExtractPrice doc selector =
     (case select doc selector of Inl err \<Rightarrow> None | Inr elements \<Rightarrow> try_elements elements)"

fun try_selectors :: "document \<Rightarrow> string list \<Rightarrow> rat option" where
  "try_selectors doc [] = None"
| "try_selectors doc (selector # rest) =
     (case truthy (tryExtractPrice doc selector) of
        Some v \<Rightarrow> Some v
      | None \<Rightarrow> try_selectors doc rest)"

definition genericSelectors :: "string list" where
  "genericSelectors =
     [''.price'', ''.sale-price'', ''.current-price'', ''.offer-price'', ''[data-price]'',
      ''.price-current'', ''.product-price'', ''.price-box .price'', ''.price-value'',
      ''.price-now'', ''.selling-price'', ''.final-price'', ''.discount-price'',
      ''.special-price'', ''.our-price'']"

fun try_patterns :: "document \<Rightarrow> nat list \<Rightarrow> rat option" where
  "try_patterns doc [] = None"
| "try_patterns doc (i # rest) =
     (case html_match doc i of
        None \<Rightarrow> try_patterns doc rest
      | Some m \<Rightarrow>
          (case truthy (parsePrice m) of
             Some v \<Rightarrow> Some v
           | None \<Rightarrow> try_patterns doc rest))"

definition extractPrice :: "document \<Rightarrow> siteConfig \<Rightarrow> rat option" where
  "extractPrice doc cfg =
     (case try_selectors doc (case selectors cfg of None \<Rightarrow> [] | Some l \<Rightarrow> l) of
        Some v \<Rightarrow> Some v
      | None \<Rightarrow>
     (case try_selectors doc genericSelectors of
        Some v \<Rightarrow> Some v
      | None \<Rightarrow> try_patterns doc [0, 1, 2, 3, 4]))"

section \<open>PriceScraper.extractProductName\<close>

function collapse_spaces :: "jstring \<Rightarrow> jstring" where
  \<comment> \<open>\<open>replace(/\s+/g, ' ')\<close>: every maximal run of white space becomes one space\<close>
  "collapse_spaces [] = []"
| "collapse_spaces (c # cs) =
     (if is_space c then 32 # collapse_spaces (dropWhile is_space cs)
      else c # collapse_spaces cs)"
  by pat_completeness auto
termination
  by (relation "measure length") (auto simp: le_imp_less_Suc length_dropWhile_le)

definition cleanProductName :: "jstring \<Rightarrow> jstring" where
  \<comment> \<open>the separators are the bar (124), the bullet (U+2022) and the middle dot (U+00B7)\<close>
  "cleanProductName name =
     take 150
       (trim
         (map (\<lambda>c. if c = 124 \<or> c = 8226 \<or> c = 183 then 45 else c)
           (filter (\<lambda>c. c \<noteq> 10 \<and> c \<noteq> 13 \<and> c \<noteq> 9)
             (collapse_spaces name))))"

definition first_text :: "element list \<Rightarrow> jstring" where
  \<comment> \<open>\<open>$(selector).first().text()\<close>: the empty string when nothing matches\<close>
  "first_text els = (case els of [] \<Rightarrow> [] | e # rest \<Rightarrow> el_text e)"

definition all_text :: "element list \<Rightarrow> jstring" where
  \<comment> \<open>\<open>$(selector).text()\<close>: the texts of all the matched elements, joined\<close>
  "all_text els = concat (map el_text els)"

fun name_from :: "document \<Rightarrow> string list \<Rightarrow> jstring + jstring option" where
  \<comment> \<open>one of the two selector loops; \<open>Inl\<close> is an error thrown by a selector, \<open>Inr None\<close>
      is the loop ending without a \<open>return\<close>\<close>
  "name_from doc [] = Inr None"
| "name_from doc (selector # rest) =
     (case select doc selector of
        Inl err \<Rightarrow> Inl err
      | Inr els \<Rightarrow>
          (let name = trim (first_text els) in
           if name \<noteq> [] \<and> 0 < length name \<and> length name < 200
           then Inr (Some (cleanProductName name))
           else name_from doc rest))"

definition genericNameSelectors :: "string list" where
  "genericNameSelectors =
     [''h1'', ''.product-title'', ''.product-name'', ''#productTitle'', ''.item-title'',
      ''.title'', ''.product-info h1'', ''.product-header h1'',
      ''[data-testid=\"product-title\"]'']"

definition extractProductName :: "document \<Rightarrow> siteConfig \<Rightarrow> jstring + jstring option" where
  "extractProductName doc cfg =
     (case name_from doc (case nameSelectors cfg of None \<Rightarrow> [] | Some l \<Rightarrow> l) of
        Inl err \<Rightarrow> Inl err
      | Inr (Some n) \<Rightarrow> Inr (Some n)
      | Inr None \<Rightarrow>
     (case name_from doc genericNameSelectors of
        Inl err \<Rightarrow> Inl err
      | Inr (Some n) \<Rightarrow> Inr (Some n)
      | Inr None \<Rightarrow>
     (case select doc ''title'' of
        Inl err \<Rightarrow> Inl err
      | Inr els \<Rightarrow>
          (let pageTitle = trim (all_text els) in
           if pageTitle \<noteq> [] \<and> 0 < length pageTitle
           then Inr (Some (cleanProductName pageTitle))
           else Inr None))))"

section \<open>PriceScraper.extractData\<close>

record scrapedData =
  price :: "rat option"
  name :: "jstring option"
  success :: bool
  error :: "jstring option"

definition msg_no_price :: jstring where
  \<comment> \<open>'Nao foi possivel extrair o preco', with its accents\<close>
  "msg_no_price = js ''N'' @ [227] @ js ''o foi poss'' @ [237] @ js ''vel extrair o pre''
                  @ [231] @ js ''o''"

definition msg_extraction :: jstring where
  \<comment> \<open>'Erro na extracao: ', with its accents\<close>
  "msg_extraction = js ''Erro na extra'' @ [231, 227] @ js ''o: ''"

definition default_name :: jstring where
  "default_name = js ''Produto sem nome''"

definition extractData ::
  "(jstring \<Rightarrow> jstring + document) \<Rightarrow> (jstring \<Rightarrow> siteConfig option) \<Rightarrow> jstring \<Rightarrow> jstring
   \<Rightarrow> scrapedData" where
  \<comment> \<open>\<open>load\<close> is \<open>cheerio.load\<close>, which may throw. Everything thrown inside the \<open>try\<close> ends
      in the \<open>catch\<close>, which returns the failure record.\<close>
  "extractData load configs html domain =
     (let failed = (\<lambda>err. \<lparr>price = None, name = None, success = False,
                             error = Some (msg_extraction @ err)\<rparr>) in
      case load html of
        Inl err \<Rightarrow> failed err
      | Inr doc \<Rightarrow>
          (let cfg = (case configs domain of None \<Rightarrow> emptyConfig | Some c \<Rightarrow> c);
               p = extractPrice doc cfg in
           case extractProductName doc cfg of
             Inl err \<Rightarrow> failed err
           | Inr n \<Rightarrow>
               (let ok = (case p of None \<Rightarrow> False | Some v \<Rightarrow> 0 < v) in
                \<lparr>price = p,
                 name = Some (case n of None \<Rightarrow> default_name
                              | Some t \<Rightarrow> if t = [] then default_name else t),
                 success = ok,
                 error = (if ok then None else Some msg_no_price)\<rparr>)))"

section \<open>URLs\<close>

text \<open>
  \<open>new URL(url)\<close> is the platform's parser: it throws on a string that is not a URL, and
  otherwise gives the protocol, the host name, the query parameters and the
  serialisation of the URL with a given list of query parameters.
\<close>

record url_obj =
  protocol :: jstring
  hostname :: jstring
  searchParams :: "(jstring \<times> jstring) list"
  toString :: "(jstring \<times> jstring) list \<Rightarrow> jstring"

definition isValidUrl :: "(jstring \<Rightarrow> url_obj option) \<Rightarrow> jstring \<Rightarrow> bool" where
  "isValidUrl new_URL url =
     (case new_URL url of
        None \<Rightarrow> False
      | Some urlObj \<Rightarrow> protocol urlObj \<in> set [js ''http:'', js ''https:''])"

definition trackingParams :: "jstring list" where
  "trackingParams = map js
     [''utm_source'', ''utm_medium'', ''utm_campaign'', ''utm_content'', ''utm_term'',
      ''gclid'', ''fbclid'', ''ref'', ''referrer'', ''_ga'', ''mc_cid'', ''mc_eid'']"

definition normalizeUrl :: "(jstring \<Rightarrow> url_obj option) \<Rightarrow> jstring \<Rightarrow> jstring" where
  "normalizeUrl new_URL url =
     (case new_URL url of
        None \<Rightarrow> url
      | Some urlObj \<Rightarrow>
          toString urlObj (filter (\<lambda>kv. fst kv \<notin> set trackingParams) (searchParams urlObj)))"

definition extractDomain :: "(jstring \<Rightarrow> url_obj option) \<Rightarrow> jstring \<Rightarrow> jstring" where
  "extractDomain new_URL url =
     (case new_URL url of
        None \<Rightarrow> js ''unknown''
      | Some urlObj \<Rightarrow>
          (if starts_with (hostname urlObj) (js ''www.'') then drop 4 (hostname urlObj)
           else hostname urlObj))"

section \<open>PriceScraper.makeRequest\<close>

definition blockIndicators :: "jstring list" where
  "blockIndicators = map js
     [''captcha'', ''blocked'', ''access denied'', ''too many requests'', ''rate limit'',
      ''robot'', ''bot detection'', ''cloudflare'', ''please verify'', ''security check'']"

definition isBlocked :: "jstring \<Rightarrow> bool" where
  "isBlocked html = (let lowerHtml = toLowerCase html in
                     list_ex (\<lambda>indicator. includes_js lowerHtml indicator) blockIndicators)"

definition retryableErrors :: "jstring list" where
  "retryableErrors = map js
     [''ECONNRESET'', ''ECONNREFUSED'', ''ETIMEDOUT'', ''timeout'', ''network'', ''5'',
      ''rate limit'']"

definition shouldRetry :: "jstring \<Rightarrow> bool" where
  \<comment> \<open>the argument is \<open>error.message\<close>\<close>
  "shouldRetry message =
     (let errorMessage = toLowerCase message in
      list_ex (\<lambda>indicator. includes_js errorMessage indicator) retryableErrors)"

function decimal :: "nat \<Rightarrow> jstring" where
  \<comment> \<open>a status code inside a template string\<close>
  "decimal n = (if n < 10 then [48 + n] else decimal (n div 10) @ [48 + n mod 10])"
  by pat_completeness auto
termination
  by (relation "measure id") auto

datatype body = Html jstring | NotAString

datatype axios_result =
  Response nat jstring body
| Rejected jstring

text \<open>
  One call of axios either resolves with a status, a status text and the data, or
  rejects with an error message. The request is configured with
  \<open>validateStatus: status < 500\<close>, so that axios itself rejects a status of 500 or more,
  with its message \<open>Request failed with status code N\<close>. Data that is not a string (axios
  parses a JSON body) makes \<open>isBlocked\<close> throw a TypeError.
\<close>

definition attempt :: "axios_result \<Rightarrow> jstring + jstring" where
  \<comment> \<open>the \<open>try\<close> block of \<open>makeRequest\<close>: the page, or the message of the error thrown\<close>
  "attempt r =
     (case r of
        Rejected message \<Rightarrow> Inl message
      | Response status statusText data \<Rightarrow>
          if 500 \<le> status then Inl (js ''Request failed with status code '' @ decimal status)
          else if 400 \<le> status then Inl (js ''HTTP '' @ decimal status @ js '': '' @ statusText)
          else (case data of
                  NotAString \<Rightarrow> Inl (js ''html.toLowerCase is not a function'')
                | Html html \<Rightarrow>
                    if isBlocked html then Inl (js ''Request bloqueado pelo servidor'')
                    else Inr html))"

record scraper =
  retryAttempts :: "jstring \<Rightarrow> nat option"
  siteConfigs :: "jstring \<Rightarrow> siteConfig option"
  delays :: "nat list"
  requests :: nat

text \<open>
  \<open>retryAttempts\<close> and \<open>siteConfigs\<close> are the fields of the scraper. \<open>delays\<close> records
  the calls of \<open>this.delay(ms)\<close>, oldest first, and \<open>requests\<close> counts the calls of axios:
  the \<open>n\<close>-th call made through this scraper is answered by \<open>axios n\<close>.
\<close>

record env =
  new_URL :: "jstring \<Rightarrow> url_obj option"
  axios :: "nat \<Rightarrow> jstring \<Rightarrow> axios_result"
  cheerio_load :: "jstring \<Rightarrow> jstring + document"
  maxRetries :: nat

definition retryCount_of :: "scraper \<Rightarrow> jstring \<Rightarrow> nat" where
  \<comment> \<open>\<open>this.retryAttempts.get(url) || 0\<close>\<close>
  "retryCount_of s url = (case retryAttempts s url of None \<Rightarrow> 0 | Some n \<Rightarrow> n)"

text \<open>
  The \<open>domain\<close> argument of \<open>makeRequest\<close> only selects request headers, which are not
  modelled, and is left out.
\<close>

function makeRequest :: "env \<Rightarrow> jstring \<Rightarrow> scraper \<Rightarrow> (jstring + jstring) \<times> scraper" where
  "makeRequest e url s =
     (let retryCount = retryCount_of s url;
          s1 = s\<lparr>requests := requests s + 1\<rparr> in
      case attempt (axios e (requests s) url) of
        Inr html \<Rightarrow> (Inr html, s1)
      | Inl message \<Rightarrow>
          if retryCount < maxRetries e \<and> shouldRetry message
          then makeRequest e url
                 (s1\<lparr>retryAttempts := (retryAttempts s1)(url \<mapsto> retryCount + 1),
                     delays := delays s1 @ [2 ^ retryCount * 1000]\<rparr>)
          else (Inl message, s1))"
  by pat_completeness auto
termination
  by (relation "measure (\<lambda>(e, url, s). maxRetries e - retryCount_of s url)")
     (auto simp: retryCount_of_def)

declare makeRequest.simps [simp del]

section \<open>PriceScraper.scrapePrice\<close>

record scrapeResult = scrapedData +
  url :: jstring
  domain :: "jstring option"

definition msg_invalid_url :: jstring where
  \<comment> \<open>'URL invalida', with its accent\<close>
  "msg_invalid_url = js ''URL inv'' @ [225] @ js ''lida''"

definition scrapePrice_try :: "env \<Rightarrow> jstring \<Rightarrow> scraper \<Rightarrow> (jstring + scrapeResult) \<times> scraper" where
  \<comment> \<open>the \<open>try\<close> block: \<open>Inl\<close> is the message of the error it throws\<close>
  "scrapePrice_try e u s =
     (if \<not> isValidUrl (new_URL e) u then (Inl msg_invalid_url, s)
      else
        (let normalizedUrl = normalizeUrl (new_URL e) u;
             dmn = extractDomain (new_URL e) normalizedUrl in
         case makeRequest e normalizedUrl s of
           (Inl message, s1) \<Rightarrow> (Inl message, s1)
         | (Inr html, s1) \<Rightarrow>
             (let d = extractData (cheerio_load e) (siteConfigs s1) html dmn;
                  s2 = (if success d
                        then s1\<lparr>retryAttempts := (retryAttempts s1)(u := None)\<rparr>
                        else s1) in
              (Inr \<lparr>price = price d, name = name d, success = success d, error = error d,
                    url = normalizedUrl, domain = Some dmn\<rparr>, s2))))"

definition scrapePrice :: "env \<Rightarrow> jstring \<Rightarrow> scraper \<Rightarrow> scrapeResult \<times> scraper" where
  "scrapePrice e u s =
     (case scrapePrice_try e u s of
        (Inr result, s1) \<Rightarrow> (result, s1)
      | (Inl message, s1) \<Rightarrow>
          (\<lparr>price = None, name = None, success = False, error = Some message,
            url = u, domain = Some (extractDomain (new_URL e) u)\<rparr>, s1))"

section \<open>PriceScraper.scrapeBatch\<close>

partial_function (option) chunk_loop ::
  "'a list \<Rightarrow> nat \<Rightarrow> nat \<Rightarrow> 'a list list \<Rightarrow> 'a list list option" where
  \<comment> \<open>the \<open>for\<close> loop of \<open>chunkArray\<close>, with \<open>array.slice(i, i + size)\<close>; with size 0 it
      never ends, which is the value \<open>None\<close>\<close>
  "chunk_loop array sz i chunks =
     (if i < length array
      then chunk_loop array sz (i + sz) (chunks @ [take sz (drop i array)])
      else Some chunks)"

declare chunk_loop.simps [code]

definition chunkArray :: "'a list \<Rightarrow> nat \<Rightarrow> 'a list list option" where
  "chunkArray array sz = chunk_loop array sz 0 []"

record batch_options =
  concurrency :: "nat option"
  delayBetween :: "nat option"
  onProgress :: "(nat \<Rightarrow> nat \<Rightarrow> bool) option"

text \<open>
  An option left out is \<open>None\<close>. The progress callback receives the number of results so
  far and the number of URLs; all the batch can observe of it is whether it throws, which
  is its value here.

  The promises of one group run in parallel and \<open>Promise.allSettled\<close> waits for all of
  them: \<open>scrape\<close> gives how the promise of a URL settles, \<open>Inr\<close> the value it fulfils with and
  \<open>Inl\<close> the message of the reason it rejects with. The second component of the result of
  \<open>scrapeBatch\<close> is what the batch did, oldest first: \<open>Scraped g\<close> when the promises of
  the group \<open>g\<close> have all settled, \<open>Waited d\<close> for a call of \<open>this.delay(d)\<close>.
\<close>

datatype batch_event = Scraped "jstring list" | Waited nat

fun waited :: "batch_event list \<Rightarrow> nat" where
  \<comment> \<open>the milliseconds of all the waits of a trace\<close>
  "waited [] = 0"
| "waited (Scraped g # rest) = waited rest"
| "waited (Waited d # rest) = d + waited rest"

definition settled :: "(jstring \<Rightarrow> jstring + scrapeResult) \<Rightarrow> jstring \<Rightarrow> scrapeResult" where
  "settled scrape u =
     (case scrape u of
        Inr v \<Rightarrow> v
      | Inl message \<Rightarrow> \<lparr>price = None, name = None, success = False, error = Some message,
                        url = u, domain = None\<rparr>)"

fun batch_loop ::
  "(jstring \<Rightarrow> jstring + scrapeResult) \<Rightarrow> (nat \<Rightarrow> nat \<Rightarrow> bool) option \<Rightarrow> nat \<Rightarrow> nat \<Rightarrow> nat
   \<Rightarrow> nat \<Rightarrow> jstring list list \<Rightarrow> scrapeResult list \<Rightarrow> batch_event list
   \<Rightarrow> scrapeResult list \<times> batch_event list" where
  \<comment> \<open>\<open>n\<close> is \<open>chunks.length\<close>, \<open>i\<close> the index of the first group still to do; \<open>i + 1 < n\<close>
      is \<open>i < chunks.length - 1\<close>. A callback that throws sends the iteration to its
      \<open>catch\<close>, past the wait.\<close>
  "batch_loop scrape cb d tot n i [] results trace = (results, trace)"
| "batch_loop scrape cb d tot n i (chunk # rest) results trace =
     (let results1 = results @ map (settled scrape) chunk;
          trace1 = trace @ [Scraped chunk];
          threw = (case cb of None \<Rightarrow> False | Some f \<Rightarrow> f (length results1) tot);
          trace2 = (if \<not> threw \<and> i + 1 < n then trace1 @ [Waited d] else trace1)
      in batch_loop scrape cb d tot n (i + 1) rest results1 trace2)"

definition scrapeBatch ::
  "(jstring \<Rightarrow> jstring + scrapeResult) \<Rightarrow> jstring list \<Rightarrow> batch_options
   \<Rightarrow> (scrapeResult list \<times> batch_event list) option" where
  "scrapeBatch scrape urls options =
     (let c = (case concurrency options of None \<Rightarrow> 3 | Some k \<Rightarrow> k);
          d = (case delayBetween options of None \<Rightarrow> 2000 | Some k \<Rightarrow> k) in
      case chunkArray urls c of
        None \<Rightarrow> None
      | Some chunks \<Rightarrow>
          Some (batch_loop scrape (onProgress options) d (length urls) (length chunks) 0
                  chunks [] []))"

section \<open>The products table\<close>

text \<open>
  A row of the table \<open>products\<close>, with the columns the monitor reads and writes. The
  nullable columns are options; timestamps are seconds. The table is the list of its
  rows. \<open>num\<close> is the number JavaScript takes a nullable number for in arithmetic and
  comparisons: \<open>null\<close> counts as 0.
\<close>

record product =
  product_id :: nat
  product_url :: jstring
  current_price :: "rat option"
  target_price :: "rat option"
  last_price :: "rat option"
  promotion_threshold :: "rat option"
  is_active :: bool
  last_checked :: "int option"
  check_count :: "nat option"
  error_count :: "nat option"
  last_error :: "jstring option"

definition num :: "rat option \<Rightarrow> rat" where
  "num x = (case x of None \<Rightarrow> 0 | Some v \<Rightarrow> v)"

definition or0 :: "nat option \<Rightarrow> nat" where
  \<comment> \<open>\<open>x || 0\<close>\<close>
  "or0 x = (case x of None \<Rightarrow> 0 | Some n \<Rightarrow> n)"

definition msg_not_found :: jstring where
  \<comment> \<open>'Produto nao encontrado', with its accent\<close>
  "msg_not_found = js ''Produto n'' @ [227] @ js ''o encontrado''"

definition findById :: "nat \<Rightarrow> product list \<Rightarrow> product option" where
  "findById i tbl = find (\<lambda>p. product_id p = i) tbl"

definition update ::
  "nat \<Rightarrow> (product \<Rightarrow> product) \<Rightarrow> int \<Rightarrow> product list \<Rightarrow> jstring + product list" where
  \<comment> \<open>\<open>UPDATE products SET ..., last_checked = CURRENT_TIMESTAMP WHERE id = ?\<close>, where
      \<open>set_fields\<close> is the assignment of the listed columns; no row changed is an error\<close>
  "update i set_fields now tbl =
     (if \<not> list_ex (\<lambda>p. product_id p = i) tbl then Inl msg_not_found
      else Inr (map (\<lambda>p. if product_id p = i
                           then (set_fields p)\<lparr>last_checked := Some now\<rparr> else p) tbl))"

record priceUpdate =
  oldPrice :: "rat option"
  newPrice :: rat
  priceChange :: rat

definition updatePrice ::
  "nat \<Rightarrow> rat \<Rightarrow> int \<Rightarrow> product list \<Rightarrow> jstring + (priceUpdate \<times> product list)" where
  "updatePrice i new now tbl =
     (case findById i tbl of
        None \<Rightarrow> Inl msg_not_found
      | Some row \<Rightarrow>
          (let old = current_price row in
           case update i (\<lambda>p. p\<lparr>current_price := Some new,
                                  last_price := old,
                                  check_count := Some (or0 (check_count row) + 1),
                                  error_count := Some 0,
                                  last_error := None\<rparr>) now tbl of
             Inl err \<Rightarrow> Inl err
           | Inr tbl1 \<Rightarrow>
               Inr (\<lparr>oldPrice = old, newPrice = new,
                     priceChange = (case truthy old of
                                      Some v \<Rightarrow> ((new - v) / v) * 100
                                    | None \<Rightarrow> 0)\<rparr>, tbl1)))"

definition incrementError ::
  "nat \<Rightarrow> jstring option \<Rightarrow> int \<Rightarrow> product list \<Rightarrow> jstring + product list" where
  \<comment> \<open>the test \<open>product.error_count >= 4\<close> reads the row as it was before the update, and
      is false for \<open>null\<close>\<close>
  "incrementError i errorMessage now tbl =
     (case findById i tbl of
        None \<Rightarrow> Inl msg_not_found
      | Some row \<Rightarrow>
          (case update i (\<lambda>p. p\<lparr>error_count := Some (or0 (error_count row) + 1),
                                  last_error := errorMessage\<rparr>) now tbl of
             Inl err \<Rightarrow> Inl err
           | Inr tbl1 \<Rightarrow>
               (case error_count row of
                  None \<Rightarrow> Inr tbl1
                | Some n \<Rightarrow>
                    if 4 \<le> n then update i (\<lambda>p. p\<lparr>is_active := False\<rparr>) now tbl1
                    else Inr tbl1)))"

definition due :: "nat \<Rightarrow> int \<Rightarrow> product \<Rightarrow> bool" where
  \<comment> \<open>the \<open>WHERE\<close> clause of \<open>findForCheck\<close>; a comparison with \<open>NULL\<close> selects nothing\<close>
  "due intervalMinutes now p =
     (is_active p
      \<and> (case last_checked p of
            None \<Rightarrow> True
          | Some t \<Rightarrow> t < now - int intervalMinutes * 60)
      \<and> (case error_count p of None \<Rightarrow> False | Some n \<Rightarrow> n < 5))"

definition findForCheck :: "nat \<Rightarrow> int \<Rightarrow> product list \<Rightarrow> product list" where
  \<comment> \<open>\<open>ORDER BY last_checked ASC NULLS FIRST LIMIT 50\<close>; the order among rows with the
      same time is not fixed by SQL, and is the order of the table here\<close>
  "findForCheck intervalMinutes now tbl =
     take 50 (sort_key last_checked (filter (due intervalMinutes now) tbl))"



section \<open>PriceMonitor.checkNotifications\<close>

datatype notification_type = target_reached | price_drop | price_increase

text \<open>
  The three senders of the notification service catch their own errors and return a
  record with the field \<open>sent\<close>: a service is the function giving that field for each
  type. Before \<open>start()\<close> the monitor has no service, the call throws, and the \<open>catch\<close> of
  \<open>checkNotifications\<close> leaves the list empty. An entry of the list is the type of the
  notification and whether it was sent.
\<close>

definition checkNotifications ::
  "(notification_type \<Rightarrow> bool) option \<Rightarrow> product \<Rightarrow> rat \<Rightarrow> priceUpdate
   \<Rightarrow> (notification_type \<times> bool) list" where
  "checkNotifications service row new upd =
     (let old = oldPrice upd; change = priceChange upd;
          fire = (\<lambda>t. case service of None \<Rightarrow> [] | Some send \<Rightarrow> [(t, send t)]) in
      if new \<le> num (target_price row) \<and> truthy old \<noteq> None
         \<and> num old > num (target_price row)
      then fire target_reached
      else if change \<noteq> 0 \<and> change \<le> - (num (promotion_threshold row) * 100)
      then fire price_drop
      else if change \<noteq> 0 \<and> change \<ge> num (promotion_threshold row) * 200
      then fire price_increase
      else [])"

section \<open>The price history\<close>

record history_row =
  h_product_id :: nat
  h_price :: rat
  h_change :: rat
  h_checked_at :: int

definition msg_required :: jstring where
  \<comment> \<open>'ProductId e price sao obrigatorios', with its accents\<close>
  "msg_required = js ''ProductId e price s'' @ [227] @ js ''o obrigat'' @ [243] @ js ''rios''"

definition msg_no_table :: jstring where
  "msg_no_table = js ''SQLITE_ERROR: no such table: main.NEW''"

definition insert_history :: "history_row \<Rightarrow> history_row list \<Rightarrow> jstring + history_row list" where
  \<comment> \<open>\<open>INSERT INTO price_history\<close> on the schema that \<open>database.js\<close> creates. Its trigger
      \<open>calculate_price_change\<close> (\<open>BEFORE INSERT ON price_history\<close>) has the body
      \<open>UPDATE NEW SET price_change_percent = ...\<close>. SQLite accepts the trigger when it is
      created and compiles it with every \<open>INSERT\<close> on the table, where \<open>NEW\<close> is not a
      table: the statement is refused, whatever the row, and nothing is inserted.\<close>
  "insert_history r hist = Inl msg_no_table"

definition history_add ::
  "nat \<Rightarrow> rat option \<Rightarrow> rat \<Rightarrow> int \<Rightarrow> history_row list \<Rightarrow> jstring + history_row list" where
  \<comment> \<open>\<open>PriceHistory.add\<close>: \<open>!productId\<close> holds of the id 0\<close>
  "history_add i p change now hist =
     (case p of
        None \<Rightarrow> Inl msg_required
      | Some v \<Rightarrow>
          if i = 0 then Inl msg_required
          else insert_history \<lparr>h_product_id = i, h_price = v, h_change = change,
                               h_checked_at = now\<rparr> hist)"


section \<open>PriceMonitor\<close>

record checkResult =
  cr_success :: bool
  cr_error :: "jstring option"
  cr_oldPrice :: "rat option"
  cr_newPrice :: "rat option"
  cr_priceChange :: "rat option"
  cr_notifications :: "(notification_type \<times> bool) list option"

record check =
  products :: "product list"
  results :: "checkResult list"

datatype call = sendSummaryNotification | performMaintenance_started | backup

text \<open>
  The monitor, with the two tables it works on. \<open>calls\<close> records, oldest first, the
  requests for a summary notification and for a backup of the store, and the runs of
  the maintenance.
\<close>

record monitor =
  currentCheck :: "check option"
  totalChecks :: nat
  successfulChecks :: nat
  notificationsSent :: nat
  notificationService :: "(notification_type \<Rightarrow> bool) option"
  tbl :: "product list"
  hist :: "history_row list"
  calls :: "call list"

definition failed_result :: "jstring option \<Rightarrow> checkResult" where
  "failed_result err =
     \<lparr>cr_success = False, cr_error = err, cr_oldPrice = None, cr_newPrice = None,
      cr_priceChange = None, cr_notifications = None\<rparr>"

definition checkProduct_try ::
  "scrapeResult \<Rightarrow> product \<Rightarrow> int \<Rightarrow> monitor \<Rightarrow> (jstring + checkResult) \<times> monitor" where
  \<comment> \<open>the \<open>try\<close> block of \<open>checkProduct\<close>, given the result of the scrape. A successful
      result carries a price, which is read with \<open>num\<close>. \<open>checkNotifications\<close> counts each
      entry of its list in \<open>notificationsSent\<close>.\<close>
  "checkProduct_try scraped row now m =
     (if \<not> success scraped then
        (case incrementError (product_id row) (error scraped) now (tbl m) of
           Inl err \<Rightarrow> (Inl err, m)
         | Inr t \<Rightarrow> (Inr (failed_result (error scraped)), m\<lparr>tbl := t\<rparr>))
      else
        (case updatePrice (product_id row) (num (price scraped)) now (tbl m) of
           Inl err \<Rightarrow> (Inl err, m)
         | Inr (upd, t) \<Rightarrow>
             (let m1 = m\<lparr>tbl := t\<rparr> in
              case history_add (product_id row) (price scraped) (priceChange upd) now (hist m1) of
                Inl err \<Rightarrow> (Inl err, m1)
              | Inr h \<Rightarrow>
                  (let notifications =
                         checkNotifications (notificationService m1) row (num (price scraped)) upd;
                       m2 = m1\<lparr>hist := h,
                               notificationsSent := notificationsSent m1 + length notifications,
                               successfulChecks := successfulChecks m1 + 1\<rparr> in
                   (Inr \<lparr>cr_success = True, cr_error = None, cr_oldPrice = oldPrice upd,
                         cr_newPrice = price scraped, cr_priceChange = Some (priceChange upd),
                         cr_notifications = Some notifications\<rparr>, m2)))))"

definition checkProduct ::
  "scrapeResult \<Rightarrow> product \<Rightarrow> int \<Rightarrow> monitor \<Rightarrow> (jstring + checkResult) \<times> monitor" where
  \<comment> \<open>the \<open>catch\<close> counts an error for the product; when that throws too, the promise of
      \<open>checkProduct\<close> rejects, which is \<open>Inl\<close>\<close>
  "checkProduct scraped row now m =
     (case checkProduct_try scraped row now m of
        (Inr r, m1) \<Rightarrow> (Inr r, m1)
      | (Inl message, m1) \<Rightarrow>
          (case incrementError (product_id row) (Some message) now (tbl m1) of
             Inl err \<Rightarrow> (Inl err, m1)
           | Inr t \<Rightarrow> (Inr (failed_result (Some message)), m1\<lparr>tbl := t\<rparr>)))"

definition push_result :: "checkResult \<Rightarrow> monitor \<Rightarrow> monitor" where
  \<comment> \<open>\<open>this.currentCheck.results.push(...)\<close>\<close>
  "push_result r m =
     (case currentCheck m of
        None \<Rightarrow> m
      | Some c \<Rightarrow> m\<lparr>currentCheck := Some (c\<lparr>results := results c @ [r]\<rparr>)\<rparr>)"





definition executeCheck_enter :: "monitor \<Rightarrow> bool \<times> monitor" where
  \<comment> \<open>the start of \<open>executeCheck\<close>, up to its first \<open>await\<close>: nothing else runs in between.
      \<open>False\<close> is the early \<open>return\<close> of a trigger that finds a check in progress.\<close>
  "executeCheck_enter m =
     (if currentCheck m \<noteq> None then (False, m)
      else (True, m\<lparr>currentCheck := Some \<lparr>products = [], results = []\<rparr>\<rparr>))"

definition executeCheck_finally :: "monitor \<Rightarrow> monitor" where
  "executeCheck_finally m = m\<lparr>totalChecks := totalChecks m + 1, currentCheck := None\<rparr>"



datatype event = Trigger | Progress checkResult | Finish

text \<open>
  Triggers can arrive while a check is between two of its \<open>await\<close>s. A state of the
  interleaving is the monitor and the number of runs of \<open>executeCheck\<close> that have passed
  the guard and not yet reached the end of their \<open>finally\<close> block. \<open>Progress\<close> is a step
  of a run in flight, and \<open>Finish\<close> its \<open>finally\<close> block: both need a run in flight.
\<close>

fun step :: "monitor \<times> nat \<Rightarrow> event \<Rightarrow> monitor \<times> nat" where
  "step (m, k) Trigger =
     (case executeCheck_enter m of
        (True, m1) \<Rightarrow> (m1, k + 1)
      | (False, m1) \<Rightarrow> (m1, k))"
| "step (m, k) (Progress r) = (if k = 0 then (m, k) else (push_result r m, k))"
| "step (m, k) Finish = (if k = 0 then (m, k) else (executeCheck_finally m, k - 1))"

definition run :: "monitor \<Rightarrow> event list \<Rightarrow> monitor \<times> nat" where
  "run m evs = foldl step (m, 0) evs"

section \<open>Concrete data\<close>

definition always_sent :: "notification_type \<Rightarrow> bool" where
  \<comment> \<open>a notification service whose sends all succeed\<close>
  "always_sent t = True"

definition example_product :: "rat \<Rightarrow> rat \<Rightarrow> product" where
  \<comment> \<open>an active product with the given target price and promotion threshold\<close>
  "example_product target threshold =
     \<lparr>product_id = 1, product_url = js ''https://loja.example/item'',
      current_price = None, target_price = Some target, last_price = None,
      promotion_threshold = Some threshold, is_active = True, last_checked = None,
      check_count = Some 0, error_count = Some 0, last_error = None\<rparr>"

definition price_update :: "rat \<Rightarrow> rat \<Rightarrow> priceUpdate" where
  \<comment> \<open>what \<open>updatePrice\<close> returns for a product whose price was \<open>old\<close>, not zero\<close>
  "price_update old new =
     \<lparr>oldPrice = Some old, newPrice = new, priceChange = ((new - old) / old) * 100\<rparr>"

section \<open>Checks of one product in a row\<close>

fun consecutive_checks ::
  "(scrapeResult \<times> int) list \<Rightarrow> product \<Rightarrow> monitor \<Rightarrow> monitor" where
  \<comment> \<open>\<open>checkProduct\<close> run on the same product once for each entry of the list, which
      gives the result of the scrape and the time of the check\<close>
  "consecutive_checks [] row m = m"
| "consecutive_checks (x # rest) row m =
     consecutive_checks rest row (snd (checkProduct (fst x) row (snd x) m))"

definition errored :: "jstring option \<Rightarrow> int \<Rightarrow> product \<Rightarrow> product" where
  \<comment> \<open>the row that \<open>incrementError\<close> leaves\<close>
  "errored message now r =
     r\<lparr>error_count := Some (or0 (error_count r) + 1), last_error := message,
       last_checked := Some now, is_active := (is_active r \<and> or0 (error_count r) < 4)\<rparr>"

definition none_active :: "nat \<Rightarrow> product list \<Rightarrow> bool" where
  \<comment> \<open>no row with this id is active\<close>
  "none_active i t = list_all (\<lambda>p. product_id p = i \<longrightarrow> \<not> is_active p) t"

definition priced_product :: "rat \<Rightarrow> product" where
  \<comment> \<open>the example product with target 100 and threshold 0.1, and a current price\<close>
  "priced_product p = (example_product 100 (1 / 10))\<lparr>current_price := Some p\<rparr>"

definition failed_scrape :: scrapeResult where
  "failed_scrape =
     \<lparr>price = None, name = None, success = False, error = Some msg_no_price,
      url = js ''https://loja.example/item'', domain = Some (js ''loja.example'')\<rparr>"

definition priced_scrape :: "rat \<Rightarrow> scrapeResult" where
  "priced_scrape p =
     \<lparr>price = Some p, name = Some default_name, success = True, error = None,
      url = js ''https://loja.example/item'', domain = Some (js ''loja.example'')\<rparr>"

definition example_monitor :: "nat \<Rightarrow> product list \<Rightarrow> monitor" where
  \<comment> \<open>an idle, started monitor that has ended \<open>n\<close> runs, over a table\<close>
  "example_monitor n t =
     \<lparr>currentCheck = None, totalChecks = n, successfulChecks = 0, notificationsSent = 0,
      notificationService = Some always_sent, tbl = t, hist = [], calls = []\<rparr>"

definition five_priced :: "(scrapeResult \<times> int) list" where
  \<comment> \<open>five scrapes that find the price 95, an hour apart\<close>
  "five_priced = [(priced_scrape 95, 1000), (priced_scrape 95, 4600), (priced_scrape 95, 8200),
                  (priced_scrape 95, 11800), (priced_scrape 95, 15400)]"

section \<open>Groups of a list\<close>

function chunks_of :: "nat \<Rightarrow> 'a list \<Rightarrow> 'a list list" where
  \<comment> \<open>the list cut into consecutive groups of \<open>n\<close>, the last one possibly shorter\<close>
  "chunks_of n xs = (if n = 0 \<or> xs = [] then [] else take n xs # chunks_of n (drop n xs))"
  by pat_completeness auto
termination
  by (relation "measure (\<lambda>(n, xs). length xs)") auto

definition default_options :: batch_options where
  \<comment> \<open>\<open>scrapeBatch(urls)\<close> with no options\<close>
  "default_options = \<lparr>concurrency = None, delayBetween = None, onProgress = None\<rparr>"

definition seven_urls :: "jstring list" where
  "seven_urls = map js [''https://a.example/1'', ''https://a.example/2'', ''ftp://a.example/3'',
                        ''https://a.example/4'', ''https://a.example/5'', ''https://a.example/6'',
                        ''https://a.example/7'']"

definition example_scrape :: "jstring \<Rightarrow> jstring + scrapeResult" where
  \<comment> \<open>every scrape fails, and the promise of the second URL even rejects\<close>
  "example_scrape u = (if u = js ''https://a.example/2'' then Inl (js ''rejected'')
                       else Inr (failed_scrape\<lparr>url := u\<rparr>))"

definition never_throws :: "(nat \<Rightarrow> nat \<Rightarrow> bool) option \<Rightarrow> bool" where
  \<comment> \<open>there is no progress callback, or it always returns\<close>
  "never_throws cb = (case cb of None \<Rightarrow> True | Some f \<Rightarrow> \<forall>a b. \<not> f a b)"

declare chunks_of.simps [simp del]

section \<open>Candidates for a name\<close>

definition rejected :: "document \<Rightarrow> string \<Rightarrow> bool" where
  \<comment> \<open>the selector is evaluated without an error and its candidate is not accepted\<close>
  "rejected doc selector =
     (case select doc selector of
        Inl err \<Rightarrow> False
      | Inr els \<Rightarrow> \<not> (0 < length (trim (first_text els)) \<and> length (trim (first_text els)) < 200))"

definition name_selectors :: "siteConfig \<Rightarrow> string list" where
  \<comment> \<open>the selectors of the site, then the generic ones\<close>
  "name_selectors cfg =
     (case nameSelectors cfg of None \<Rightarrow> [] | Some l \<Rightarrow> l) @ genericNameSelectors"

definition long_title :: jstring where
  \<comment> \<open>the letter a, 200 times\<close>
  "long_title = replicate 200 97"

definition title_element :: element where
  "title_element = \<lparr>el_text = long_title, el_attr = (\<lambda>a. None)\<rparr>"

definition long_title_doc :: document where
  \<comment> \<open>a page with nothing but a title\<close>
  "long_title_doc =
     \<lparr>select = (\<lambda>selector. if selector = ''title'' then Inr [title_element] else Inr []),
      html_match = (\<lambda>i. None)\<rparr>"

definition h1_element :: element where
  "h1_element = \<lparr>el_text = js ''  Fone  | JBL '', el_attr = (\<lambda>a. None)\<rparr>"

definition h1_doc :: document where
  \<comment> \<open>a page with nothing but a heading\<close>
  "h1_doc =
     \<lparr>select = (\<lambda>selector. if selector = ''h1'' then Inr [h1_element] else Inr []),
      html_match = (\<lambda>i. None)\<rparr>"

definition blank_doc :: document where
  \<comment> \<open>a page on which no selector matches anything\<close>
  "blank_doc = \<lparr>select = (\<lambda>selector. Inr []), html_match = (\<lambda>i. None)\<rparr>"

definition plain :: "nat \<Rightarrow> bool" where
  \<comment> \<open>a character that \<open>cleanProductName\<close> leaves as it is: no white space, no separator\<close>
  "plain c = (\<not> is_space c \<and> c \<noteq> 124 \<and> c \<noteq> 8226 \<and> c \<noteq> 183)"

section \<open>A shop\<close>

definition shop_url :: jstring where
  \<comment> \<open>the address of a product, with a tracking parameter\<close>
  "shop_url = js ''https://loja.example/p?utm_source=x''"

definition shop_normalized :: jstring where
  \<comment> \<open>the same address as \<open>normalizeUrl\<close> leaves it\<close>
  "shop_normalized = js ''https://loja.example/p''"

definition example_URL :: "jstring \<Rightarrow> url_obj option" where
  \<comment> \<open>the parser of URLs on the two addresses of the shop; nothing else is a URL here\<close>
  "example_URL u =
     (if u = shop_url \<or> u = shop_normalized
      then Some \<lparr>protocol = js ''https:'', hostname = js ''loja.example'',
                 searchParams = (if u = shop_url then [(js ''utm_source'', js ''x'')] else []),
                 toString = (\<lambda>ps. if ps = [] then shop_normalized else shop_url)\<rparr>
      else None)"

definition price_doc :: document where
  \<comment> \<open>a page with a price and a heading\<close>
  "price_doc =
     \<lparr>select = (\<lambda>selector.
                  if selector = ''.price''
                  then Inr [\<lparr>el_text = js '' R$ 99,90 '', el_attr = (\<lambda>a. None)\<rparr>]
                  else if selector = ''h1''
                  then Inr [\<lparr>el_text = js ''Fone JBL'', el_attr = (\<lambda>a. None)\<rparr>]
                  else Inr []),
      html_match = (\<lambda>i. None)\<rparr>"

definition page :: jstring where
  "page = js ''<h1>Fone JBL</h1>''"

definition online_env :: env where
  \<comment> \<open>every request is answered with the page\<close>
  "online_env =
     \<lparr>new_URL = example_URL,
      axios = (\<lambda>n u. Response 200 (js ''OK'') (Html page)),
      cheerio_load = (\<lambda>html. Inr price_doc),
      maxRetries = 3\<rparr>"

definition reset_env :: env where
  \<comment> \<open>every request ends in a connection reset\<close>
  "reset_env = online_env\<lparr>axios := (\<lambda>n u. Rejected (js ''read ECONNRESET''))\<rparr>"

definition flaky_env :: env where
  \<comment> \<open>the first request times out, the following ones are answered\<close>
  "flaky_env =
     online_env\<lparr>axios := (\<lambda>n u. if n = 0 then Rejected (js ''timeout of 10000ms exceeded'')
                                 else Response 200 (js ''OK'') (Html page))\<rparr>"

definition new_scraper :: scraper where
  \<comment> \<open>a scraper with no retry recorded and no site configuration\<close>
  "new_scraper = \<lparr>retryAttempts = (\<lambda>u. None), siteConfigs = (\<lambda>d. None), delays = [],
                   requests = 0\<rparr>"

section \<open>What a check cycle requests\<close>





section \<open>Properties\<close>

subsection \<open>Prices are positive\<close>

lemma parsePrice_positive: "parsePrice s = Some v \<Longrightarrow> 0 < v"
  by (auto simp: parsePrice_def brazilian_def positive_def Let_def
           split: option.splits if_splits)

subsection \<open>Notification rules\<close>

text \<open>
  Claim C1, amended. For a product checked with a previous price (not zero) and a
  notification service in place, the rules are tried in the order target reached, price
  drop, price increase, and the first that holds is the only one to fire: target reached
  when the new price is at most the target and the previous price was above it; price
  drop when the change is not zero and at most minus the threshold times 100; price
  increase when the change is not zero and at least the threshold times 200. For a
  positive threshold the change is then never zero and the two rules are the claim's own.
  At most one notification is raised by a check, whatever the service. With target 100,
  threshold 0.1, previous price 120 and new price 95 the drop exceeds 10 percent and
  only target reached fires.
\<close>

theorem C1_first_match:
  "(oldPrice upd = Some old \<and> old \<noteq> 0 \<longrightarrow>
      map fst (checkNotifications (Some send) row new upd) =
        (if new \<le> num (target_price row) \<and> old > num (target_price row) then [target_reached]
         else if priceChange upd \<noteq> 0
                 \<and> priceChange upd \<le> - (num (promotion_threshold row) * 100)
           then [price_drop]
         else if priceChange upd \<noteq> 0
                 \<and> priceChange upd \<ge> num (promotion_threshold row) * 200
           then [price_increase]
         else []))
   \<and> (oldPrice upd = Some old \<and> old \<noteq> 0 \<and> 0 < num (promotion_threshold row) \<longrightarrow>
      map fst (checkNotifications (Some send) row new upd) =
        (if new \<le> num (target_price row) \<and> old > num (target_price row) then [target_reached]
         else if priceChange upd \<le> - (num (promotion_threshold row) * 100) then [price_drop]
         else if priceChange upd \<ge> num (promotion_threshold row) * 200 then [price_increase]
         else []))
   \<and> length (checkNotifications service row new upd) \<le> 1
   \<and> priceChange (price_update 120 95)
       \<le> - (num (promotion_threshold (example_product 100 (1 / 10))) * 100)
   \<and> checkNotifications (Some always_sent) (example_product 100 (1 / 10)) 95
        (price_update 120 95)
       = [(target_reached, True)]"
proof -
  have a: "oldPrice upd = Some old \<Longrightarrow> old \<noteq> 0 \<Longrightarrow>
      map fst (checkNotifications (Some send) row new upd) =
        (if new \<le> num (target_price row) \<and> old > num (target_price row) then [target_reached]
         else if priceChange upd \<noteq> 0
                 \<and> priceChange upd \<le> - (num (promotion_threshold row) * 100)
           then [price_drop]
         else if priceChange upd \<noteq> 0
                 \<and> priceChange upd \<ge> num (promotion_threshold row) * 200
           then [price_increase]
         else [])"
    by (simp add: checkNotifications_def truthy_def num_def Let_def)
  have b: "0 < num (promotion_threshold row) \<Longrightarrow>
      (priceChange upd \<noteq> 0 \<and> priceChange upd \<le> - (num (promotion_threshold row) * 100))
        = (priceChange upd \<le> - (num (promotion_threshold row) * 100))"
    by auto
  have c: "0 < num (promotion_threshold row) \<Longrightarrow>
      (priceChange upd \<noteq> 0 \<and> priceChange upd \<ge> num (promotion_threshold row) * 200)
        = (priceChange upd \<ge> num (promotion_threshold row) * 200)"
    by auto
  have d: "length (checkNotifications service row new upd) \<le> 1"
    by (simp add: checkNotifications_def Let_def split: option.splits)
  have e: "priceChange (price_update 120 95)
             \<le> - (num (promotion_threshold (example_product 100 (1 / 10))) * 100)"
    by (simp add: price_update_def example_product_def num_def)
  have f: "checkNotifications (Some always_sent) (example_product 100 (1 / 10)) 95
             (price_update 120 95) = [(target_reached, True)]"
    by (simp add: checkNotifications_def price_update_def example_product_def num_def
                  truthy_def always_sent_def)
  show ?thesis using a b c d e f by simp
qed

text \<open>
  A drop of 20 percent above the target: the previous price 90 exists and is not zero,
  and price drop is what fires.
\<close>

theorem C1_first_match_witness:
  "oldPrice (price_update 90 72) = Some 90 \<and> (90::rat) \<noteq> 0
   \<and> map fst (checkNotifications (Some always_sent) (example_product 50 (1 / 10)) 72
                (price_update 90 72))
     = [price_drop]"
  using C1_first_match [where upd = "price_update 90 72" and old = 90 and send = always_sent
      and row = "example_product 50 (1 / 10)" and new = 72 and service = None]
  by (simp add: price_update_def example_product_def num_def)

text \<open>
  The claim as it is written fails for a threshold of zero and an unchanged price: the
  price is above the target, the change 0 is at most minus the threshold times 100, and
  price drop does not fire.
\<close>

theorem C1_counterexample:
  "priceChange (price_update 120 120)
     \<le> - (num (promotion_threshold (example_product 100 0)) * 100)
   \<and> \<not> (120 \<le> num (target_price (example_product 100 0)))
   \<and> map fst (checkNotifications (Some always_sent) (example_product 100 0) 120
                (price_update 120 120))
       \<noteq> [price_drop]"
  by (simp add: checkNotifications_def price_update_def example_product_def num_def
                truthy_def always_sent_def)

subsection \<open>Parsing a price\<close>

lemmas parse_defs = parsePrice_def cleanText_def js_def is_digit_def match_thousands_def
  match_american_def match_comma_def split_decimals_def thousands_def digits1_def
  brazilian_def positive_def parseFloat_def digits_val_def directParse_def Let_def
  reaches_fallback_def

lemma parse_thousands: "parsePrice (js ''1.234,56'') = Some (123456 / 100)"
  by (simp add: parse_defs)

lemma parse_american: "parsePrice (js ''1234.56'') = Some (123456 / 100)"
  by (simp add: parse_defs)

lemma parse_letters: "parsePrice (js ''abc'') = None"
  by (simp add: parse_defs)

lemma parse_minus: "parsePrice (js ''-5'') = Some 5"
  by (simp add: parse_defs)

lemma parse_currency: "parsePrice (js ''R$ 99,90'') = Some (999 / 10)"
  by (simp add: parse_defs)

lemma parsePrice_fallback:
  "reaches_fallback s \<Longrightarrow>
     parsePrice s = (case directParse (cleanText s) of
                       None \<Rightarrow> None
                     | Some v \<Rightarrow> if 0 < v \<and> v < 1000000 then Some v else None)"
  by (simp add: reaches_fallback_def parsePrice_def Let_def)

lemma parsePrice_fallback_bound:
  "reaches_fallback s \<Longrightarrow> parsePrice s = Some v \<Longrightarrow> 0 < v \<and> v < 1000000"
  by (simp add: parsePrice_fallback split: option.splits if_splits)

lemma fallback_example: "reaches_fallback (js ''12.5'')"
  by (simp add: parse_defs)

lemma directParse_example: "directParse (cleanText (js ''12.5'')) = Some (25 / 2)"
  by (simp add: parse_defs)

text \<open>
  Claim C3, amended. \<open>parsePrice\<close> gives 1234.56 for "1.234,56" and for "1234.56", null
  for "abc", 99.90 for "R$ 99,90", and 5 for "-5": the minus sign is removed with every
  other character that is not a digit, a dot or a comma. A result is never zero or less.
  An input that reaches the fallback is read with its commas as dots, and the value is
  accepted exactly when it is above 0 and below 1,000,000.
\<close>

theorem C3_parsePrice:
  "parsePrice (js ''1.234,56'') = Some (123456 / 100)
   \<and> parsePrice (js ''1234.56'') = Some (123456 / 100)
   \<and> parsePrice (js ''abc'') = None
   \<and> parsePrice (js ''-5'') = Some 5
   \<and> parsePrice (js ''R$ 99,90'') = Some (999 / 10)
   \<and> (parsePrice s = Some v \<longrightarrow> 0 < v)
   \<and> (reaches_fallback s \<longrightarrow>
        parsePrice s = (case directParse (cleanText s) of
                          None \<Rightarrow> None
                        | Some v \<Rightarrow> if 0 < v \<and> v < 1000000 then Some v else None))
   \<and> (reaches_fallback s \<and> parsePrice s = Some v \<longrightarrow> 0 < v \<and> v < 1000000)"
  using parse_thousands parse_american parse_letters parse_minus parse_currency
    parsePrice_positive [of s v] parsePrice_fallback [of s]
    parsePrice_fallback_bound [of s v]
  by blast

text \<open>The text "12.5" matches none of the four patterns and is read as 12.5.\<close>

theorem C3_parsePrice_witness:
  "reaches_fallback (js ''12.5'') \<and> parsePrice (js ''12.5'') = Some (25 / 2)
   \<and> (0::rat) < 25 / 2 \<and> (25 / 2 :: rat) < 1000000"
  using C3_parsePrice [where s = "js ''12.5''" and v = "25 / 2"]
    fallback_example directParse_example
  by simp

text \<open>The claim as it is written fails at "-5", which is not rejected.\<close>

theorem C3_counterexample: "parsePrice (js ''-5'') \<noteq> None"
  by (simp add: parse_defs)

subsection \<open>The products table\<close>

lemma find_map_same_id:
  assumes "find (\<lambda>p. product_id p = i) t = Some r"
    and "\<And>p. product_id (g p) = product_id p"
  shows "find (\<lambda>p. product_id p = i) (map (\<lambda>p. if product_id p = i then g p else p) t) = Some (g r)"
  using assms by (induction t) (auto split: if_splits)

lemma findById_exists: "findById i t = Some r \<Longrightarrow> list_ex (\<lambda>p. product_id p = i) t"
  by (auto simp: findById_def list_ex_iff find_Some_iff)

lemma findById_id: "findById i t = Some r \<Longrightarrow> product_id r = i"
  by (auto simp: findById_def find_Some_iff)

lemma update_found:
  assumes "findById i t = Some r" and "\<And>p. product_id (f p) = product_id p"
  shows "\<exists>t'. update i f now t = Inr t' \<and> findById i t' = Some ((f r)\<lparr>last_checked := Some now\<rparr>)"
proof -
  have "find (\<lambda>p. product_id p = i)
          (map (\<lambda>p. if product_id p = i then (f p)\<lparr>last_checked := Some now\<rparr> else p) t)
        = Some ((f r)\<lparr>last_checked := Some now\<rparr>)"
    using assms by (intro find_map_same_id) (auto simp: findById_def)
  then show ?thesis
    using findById_exists [OF assms(1)] by (simp add: update_def findById_def)
qed

lemma updatePrice_found:
  assumes "findById i t = Some r"
  shows "\<exists>t'. updatePrice i new now t =
           Inr (\<lparr>oldPrice = current_price r, newPrice = new,
                 priceChange = (case truthy (current_price r) of Some v \<Rightarrow> ((new - v) / v) * 100 | None \<Rightarrow> 0)\<rparr>, t')
         \<and> findById i t' = Some (r\<lparr>current_price := Some new, last_price := current_price r,
                 check_count := Some (or0 (check_count r) + 1), error_count := Some 0,
                 last_error := None, last_checked := Some now\<rparr>)"
proof -
  obtain t' where "update i (\<lambda>p. p\<lparr>current_price := Some new,
                                  last_price := current_price r,
                                  check_count := Some (or0 (check_count r) + 1),
                                  error_count := Some 0,
                                  last_error := None\<rparr>) now t = Inr t'"
     and "findById i t' = Some (r\<lparr>current_price := Some new, last_price := current_price r,
                 check_count := Some (or0 (check_count r) + 1), error_count := Some 0,
                 last_error := None, last_checked := Some now\<rparr>)"
    using update_found [OF assms, of "\<lambda>p. p\<lparr>current_price := Some new,
                                  last_price := current_price r,
                                  check_count := Some (or0 (check_count r) + 1),
                                  error_count := Some 0,
                                  last_error := None\<rparr>" now] by auto
  then show ?thesis using assms by (simp add: updatePrice_def Let_def)
qed

lemma updatePrice_missing: "findById i t = None \<Longrightarrow> updatePrice i new now t = Inl msg_not_found"
  by (simp add: updatePrice_def)

lemma update_result:
  "update i f now t = Inr t' \<Longrightarrow>
     t' = map (\<lambda>p. if product_id p = i then (f p)\<lparr>last_checked := Some now\<rparr> else p) t"
  by (simp add: update_def split: if_splits)

lemma deactivated_none_active:
  "none_active i (map (\<lambda>p. if product_id p = i
                             then (p\<lparr>is_active := False\<rparr>)\<lparr>last_checked := Some now\<rparr> else p) t)"
  by (induction t) (simp_all add: none_active_def)

lemma update_deactivates:
  "update i (\<lambda>p. p\<lparr>is_active := False\<rparr>) now t1 = Inr t2 \<Longrightarrow> none_active i t2"
  using update_result [of i "\<lambda>p. p\<lparr>is_active := False\<rparr>" now t1 t2]
    deactivated_none_active [of i now t1]
  by simp

lemma incrementError_found:
  assumes "findById i t = Some r"
  shows "\<exists>t'. incrementError i message now t = Inr t'
           \<and> findById i t' = Some (errored message now r)
           \<and> (4 \<le> or0 (error_count r) \<longrightarrow> none_active i t')"
proof -
  let ?f = "\<lambda>p. p\<lparr>error_count := Some (or0 (error_count r) + 1), last_error := message\<rparr>"
  obtain t1 where u1: "update i ?f now t = Inr t1"
    and f1: "findById i t1 = Some ((?f r)\<lparr>last_checked := Some now\<rparr>)"
    using update_found [OF assms, of ?f now] by auto
  show ?thesis
  proof (cases "4 \<le> or0 (error_count r)")
    case False
    then have "incrementError i message now t = Inr t1"
      using assms u1 unfolding incrementError_def by (simp add: or0_def split: option.splits)
    moreover have "(?f r)\<lparr>last_checked := Some now\<rparr> = errored message now r"
      using False by (simp add: errored_def)
    ultimately show ?thesis using f1 False by auto
  next
    case True
    let ?g = "\<lambda>p. p\<lparr>is_active := False\<rparr>"
    obtain t2 where u2: "update i ?g now t1 = Inr t2"
      and f2: "findById i t2 = Some ((?g ((?f r)\<lparr>last_checked := Some now\<rparr>))\<lparr>last_checked := Some now\<rparr>)"
      using update_found [OF f1, of ?g now] by auto
    have "incrementError i message now t = Inr t2"
      using assms u1 u2 True unfolding incrementError_def
      by (simp add: or0_def split: option.splits)
    moreover have "(?g ((?f r)\<lparr>last_checked := Some now\<rparr>))\<lparr>last_checked := Some now\<rparr>
                   = errored message now r"
      using True by (simp add: errored_def)
    moreover have "none_active i t2"
      using u2 by (rule update_deactivates)
    ultimately show ?thesis using f2 by auto
  qed
qed

lemma checkProduct_failed:
  assumes "findById (product_id row) (tbl m) = Some r" and "\<not> success scraped"
  shows "\<exists>t'. checkProduct scraped row now m = (Inr (failed_result (error scraped)), m\<lparr>tbl := t'\<rparr>)
           \<and> findById (product_id row) t' = Some (errored (error scraped) now r)
           \<and> (4 \<le> or0 (error_count r) \<longrightarrow> none_active (product_id row) t')"
proof -
  obtain t' where "incrementError (product_id row) (error scraped) now (tbl m) = Inr t'"
    and "findById (product_id row) t' = Some (errored (error scraped) now r)"
    and "4 \<le> or0 (error_count r) \<longrightarrow> none_active (product_id row) t'"
    using incrementError_found [OF assms(1), of "error scraped" now] by auto
  then show ?thesis using assms(2)
    by (auto simp: checkProduct_def checkProduct_try_def)
qed

lemma consecutive_failures:
  assumes "list_all (\<lambda>x. \<not> success (fst x)) runs"
    and "findById (product_id row) (tbl m) = Some r"
  shows "\<exists>r'. findById (product_id row) (tbl (consecutive_checks runs row m)) = Some r'
           \<and> or0 (error_count r') = or0 (error_count r) + length runs
           \<and> (runs \<noteq> [] \<longrightarrow> error_count r' = Some (or0 (error_count r) + length runs))
           \<and> (runs \<noteq> [] \<longrightarrow> is_active r' = (is_active r \<and> or0 (error_count r) + length runs < 5))
           \<and> (runs \<noteq> [] \<and> 5 \<le> or0 (error_count r) + length runs \<longrightarrow>
                 none_active (product_id row) (tbl (consecutive_checks runs row m)))"
  using assms
proof (induction runs arbitrary: m r)
  case Nil
  then show ?case by simp
next
  case (Cons x rest)
  obtain t' where c: "checkProduct (fst x) row (snd x) m = (Inr (failed_result (error (fst x))), m\<lparr>tbl := t'\<rparr>)"
    and f: "findById (product_id row) t' = Some (errored (error (fst x)) (snd x) r)"
    and n: "4 \<le> or0 (error_count r) \<longrightarrow> none_active (product_id row) t'"
    using checkProduct_failed [OF Cons.prems(2), of "fst x" "snd x"] Cons.prems(1) by auto
  let ?m1 = "m\<lparr>tbl := t'\<rparr>"
  let ?r1 = "errored (error (fst x)) (snd x) r"
  have f1: "findById (product_id row) (tbl ?m1) = Some ?r1" using f by simp
  have rest: "list_all (\<lambda>x. \<not> success (fst x)) rest" using Cons.prems(1) by simp
  from Cons.IH [OF rest f1] obtain r' where
    a: "findById (product_id row) (tbl (consecutive_checks rest row ?m1)) = Some r'"
    and b: "or0 (error_count r') = or0 (error_count ?r1) + length rest"
    and b': "rest \<noteq> [] \<longrightarrow> error_count r' = Some (or0 (error_count ?r1) + length rest)"
    and d: "rest \<noteq> [] \<longrightarrow> is_active r' = (is_active ?r1 \<and> or0 (error_count ?r1) + length rest < 5)"
    and e: "rest \<noteq> [] \<and> 5 \<le> or0 (error_count ?r1) + length rest \<longrightarrow>
                 none_active (product_id row) (tbl (consecutive_checks rest row ?m1))"
    by blast
  have cc: "consecutive_checks (x # rest) row m = consecutive_checks rest row ?m1"
    using c by simp
  have ec: "or0 (error_count ?r1) = or0 (error_count r) + 1" "error_count ?r1 = Some (or0 (error_count r) + 1)"
    "is_active ?r1 = (is_active r \<and> or0 (error_count r) < 4)"
    by (simp_all add: errored_def or0_def)
  show ?case
  proof (cases "rest = []")
    case True
    then show ?thesis using cc f n ec by auto
  next
    case False
    then show ?thesis using cc a b b' d e ec by auto
  qed
qed

lemma findForCheck_due: "p \<in> set (findForCheck iv now t) \<Longrightarrow> p \<in> set t \<and> due iv now p"
  by (auto simp: findForCheck_def dest: in_set_takeD)

lemma findForCheck_selects:
  "p \<in> set (findForCheck iv now t) \<Longrightarrow> is_active p \<and> (\<exists>n. error_count p = Some n \<and> n < 5)"
  by (auto dest!: findForCheck_due simp: due_def split: option.splits)

lemma findForCheck_none_active:
  "none_active i t \<Longrightarrow> p \<in> set (findForCheck iv now t) \<Longrightarrow> product_id p \<noteq> i"
  by (auto dest!: findForCheck_due simp: due_def none_active_def list_all_iff)

subsection \<open>Updating a price\<close>

text \<open>
  Claim C5. For an existing product, \<open>updatePrice\<close> succeeds and returns the previous
  current price and a price change of (new - old) / old * 100 when there was a previous
  price (not zero), and of 0 when there was none (or it was zero, which the code takes
  for none); in the table the product then has the
  new current price, the previous current price as last price, a check count one
  higher, an error count of 0 and no last error.
\<close>

theorem C5_updatePrice:
  "findById i t = Some r \<longrightarrow>
     (\<exists>upd t' r'. updatePrice i new now t = Inr (upd, t') \<and> findById i t' = Some r'
        \<and> oldPrice upd = current_price r
        \<and> (\<forall>old. current_price r = Some old \<and> old \<noteq> 0 \<longrightarrow>
              priceChange upd = ((new - old) / old) * 100)
        \<and> (current_price r = None \<or> current_price r = Some 0 \<longrightarrow> priceChange upd = 0)
        \<and> current_price r' = Some new
        \<and> last_price r' = current_price r
        \<and> check_count r' = Some (or0 (check_count r) + 1)
        \<and> error_count r' = Some 0
        \<and> last_error r' = None)"
proof
  assume a: "findById i t = Some r"
  from updatePrice_found [OF a, of new now] obtain t' where
    u: "updatePrice i new now t =
           Inr (\<lparr>oldPrice = current_price r, newPrice = new,
                 priceChange = (case truthy (current_price r) of
                                  Some v \<Rightarrow> ((new - v) / v) * 100 | None \<Rightarrow> 0)\<rparr>, t')"
    and f: "findById i t' = Some (r\<lparr>current_price := Some new, last_price := current_price r,
                 check_count := Some (or0 (check_count r) + 1), error_count := Some 0,
                 last_error := None, last_checked := Some now\<rparr>)"
    by blast
  show "\<exists>upd t' r'. updatePrice i new now t = Inr (upd, t') \<and> findById i t' = Some r'
        \<and> oldPrice upd = current_price r
        \<and> (\<forall>old. current_price r = Some old \<and> old \<noteq> 0 \<longrightarrow>
              priceChange upd = ((new - old) / old) * 100)
        \<and> (current_price r = None \<or> current_price r = Some 0 \<longrightarrow> priceChange upd = 0)
        \<and> current_price r' = Some new
        \<and> last_price r' = current_price r
        \<and> check_count r' = Some (or0 (check_count r) + 1)
        \<and> error_count r' = Some 0
        \<and> last_error r' = None"
    apply (rule exI, rule exI, rule exI)
    apply (rule conjI, rule u)
    apply (rule conjI, rule f)
    apply (simp add: truthy_def)
    done
qed

text \<open>The product priced 120 is found in its table, and a new price of 95 is a change
  of -125/6 percent, which is what the update returns.\<close>

theorem C5_updatePrice_witness:
  "findById 1 [priced_product 120] = Some (priced_product 120)
   \<and> (\<exists>upd t'. updatePrice 1 95 1000 [priced_product 120] = Inr (upd, t')
         \<and> priceChange upd = - (125 / 6) \<and> oldPrice upd = Some 120)"
proof -
  have h: "findById 1 [priced_product 120] = Some (priced_product 120)"
    by (simp add: findById_def priced_product_def example_product_def)
  have c: "current_price (priced_product 120) = Some 120"
    by (simp add: priced_product_def)
  from C5_updatePrice [of 1 "[priced_product 120]" "priced_product 120" 95 1000] h
  obtain upd t' where "updatePrice 1 95 1000 [priced_product 120] = Inr (upd, t')"
    and "oldPrice upd = current_price (priced_product 120)"
    and "\<forall>old. current_price (priced_product 120) = Some old \<and> old \<noteq> 0 \<longrightarrow>
              priceChange upd = ((95 - old) / old) * 100"
    by blast
  then show ?thesis using h c by auto
qed

subsection \<open>The error count\<close>

lemma history_add_refused: "history_add i p change now h \<noteq> Inr h'"
  by (simp add: history_add_def insert_history_def split: option.splits)

lemma history_add_priced:
  "i \<noteq> 0 \<Longrightarrow> history_add i (Some v) change now h = Inl msg_no_table"
  by (simp add: history_add_def insert_history_def)

lemma checkProduct_priced:
  assumes "findById (product_id row) (tbl m) = Some r" and "success scraped"
    and "price scraped = Some v" and "product_id row \<noteq> 0"
  shows "\<exists>t'. checkProduct scraped row now m
                 = (Inr (failed_result (Some msg_no_table)), m\<lparr>tbl := t'\<rparr>)
           \<and> findById (product_id row) t'
               = Some (r\<lparr>current_price := Some v, last_price := current_price r,
                         check_count := Some (or0 (check_count r) + 1),
                         error_count := Some 1, last_error := Some msg_no_table,
                         last_checked := Some now\<rparr>)"
proof -
  let ?r1 = "r\<lparr>current_price := Some (num (price scraped)), last_price := current_price r,
                 check_count := Some (or0 (check_count r) + 1), error_count := Some 0,
                 last_error := None, last_checked := Some now\<rparr>"
  obtain t1 upd where u: "updatePrice (product_id row) (num (price scraped)) now (tbl m) = Inr (upd, t1)"
    and f: "findById (product_id row) t1 = Some ?r1"
    using updatePrice_found [OF assms(1), of "num (price scraped)" now] by auto
  have t: "checkProduct_try scraped row now m = (Inl msg_no_table, m\<lparr>tbl := t1\<rparr>)"
    using assms(2,3,4) u
    by (simp add: checkProduct_try_def Let_def history_add_priced)
  obtain t2 where i: "incrementError (product_id row) (Some msg_no_table) now t1 = Inr t2"
    and g: "findById (product_id row) t2 = Some (errored (Some msg_no_table) now ?r1)"
    using incrementError_found [OF f, of "Some msg_no_table" now] by auto
  have c: "checkProduct scraped row now m
             = (Inr (failed_result (Some msg_no_table)), m\<lparr>tbl := t2\<rparr>)"
    using t i by (simp add: checkProduct_def)
  have e: "errored (Some msg_no_table) now ?r1
             = r\<lparr>current_price := Some v, last_price := current_price r,
                         check_count := Some (or0 (check_count r) + 1),
                         error_count := Some 1, last_error := Some msg_no_table,
                         last_checked := Some now\<rparr>"
    using assms(3) by (simp add: errored_def or0_def num_def)
  show ?thesis using c g e by auto
qed

lemma consecutive_priced:
  assumes "list_all (\<lambda>x. success (fst x) \<and> price (fst x) \<noteq> None) runs"
    and "findById (product_id row) (tbl m) = Some r" and "product_id row \<noteq> 0"
    and "runs \<noteq> []"
  shows "\<exists>r'. findById (product_id row) (tbl (consecutive_checks runs row m)) = Some r'
           \<and> error_count r' = Some 1 \<and> is_active r' = is_active r
           \<and> last_checked r' = Some (snd (last runs))
           \<and> successfulChecks (consecutive_checks runs row m) = successfulChecks m"
  using assms
proof (induction runs arbitrary: m r)
  case Nil
  then show ?case by simp
next
  case (Cons x rest)
  obtain v where v: "price (fst x) = Some v" using Cons.prems(1) by auto
  have s: "success (fst x)" using Cons.prems(1) by simp
  from checkProduct_priced [OF Cons.prems(2) s v Cons.prems(3), of "snd x"]
  obtain t' where c: "checkProduct (fst x) row (snd x) m
                 = (Inr (failed_result (Some msg_no_table)), m\<lparr>tbl := t'\<rparr>)"
    and f: "findById (product_id row) t'
               = Some (r\<lparr>current_price := Some v, last_price := current_price r,
                         check_count := Some (or0 (check_count r) + 1),
                         error_count := Some 1, last_error := Some msg_no_table,
                         last_checked := Some (snd x)\<rparr>)"
    by blast
  let ?m1 = "m\<lparr>tbl := t'\<rparr>"
  have step: "consecutive_checks (x # rest) row m = consecutive_checks rest row ?m1"
    using c by simp
  show ?case
  proof (cases "rest = []")
    case True
    then show ?thesis using step f by simp
  next
    case False
    have l: "list_all (\<lambda>x. success (fst x) \<and> price (fst x) \<noteq> None) rest"
      using Cons.prems(1) by simp
    have f1: "findById (product_id row) (tbl ?m1)
               = Some (r\<lparr>current_price := Some v, last_price := current_price r,
                         check_count := Some (or0 (check_count r) + 1),
                         error_count := Some 1, last_error := Some msg_no_table,
                         last_checked := Some (snd x)\<rparr>)"
      using f by simp
    from Cons.IH [OF l f1 Cons.prems(3) False] show ?thesis
      unfolding step using False by simp
  qed
qed

lemma five_priced_table:
  "tbl (consecutive_checks five_priced (priced_product 120)
          (example_monitor 0 [priced_product 120]))
     = [(priced_product 120)\<lparr>current_price := Some 95, last_price := Some 95,
          check_count := Some 5, error_count := Some 1, last_error := Some msg_no_table,
          last_checked := Some 15400\<rparr>]"
  by (simp add: five_priced_def priced_scrape_def priced_product_def example_product_def
        example_monitor_def checkProduct_def checkProduct_try_def updatePrice_def
        incrementError_def update_def findById_def history_add_def insert_history_def
        or0_def num_def truthy_def failed_result_def Let_def)

lemma five_priced_none_succeeded:
  "successfulChecks (consecutive_checks five_priced (priced_product 120)
                       (example_monitor 0 [priced_product 120])) = 0"
  by (simp add: five_priced_def priced_scrape_def priced_product_def example_product_def
        example_monitor_def checkProduct_def checkProduct_try_def updatePrice_def
        incrementError_def update_def findById_def history_add_def insert_history_def
        or0_def num_def truthy_def failed_result_def Let_def)

text \<open>
  Claim C2 does not hold of the code. Every insert into the price history is refused
  (see \<open>insert_history\<close>), so a check whose scrape finds a price is a failed check too:
  \<open>updatePrice\<close> has then already set the error count to 0, and the \<open>catch\<close> of
  \<open>checkProduct\<close> counts one error from there. An active product with no error, checked
  five times in a row with a scrape that finds a price, fails all five checks; it is
  still active, its error count is 1, and the query for the products to check still
  selects it.
\<close>

theorem C2_failed_checks_stay_active:
  "is_active (priced_product 120) \<and> error_count (priced_product 120) = Some 0
   \<and> successfulChecks (consecutive_checks five_priced (priced_product 120)
                          (example_monitor 0 [priced_product 120])) = 0
   \<and> map is_active
        (tbl (consecutive_checks five_priced (priced_product 120)
                (example_monitor 0 [priced_product 120]))) = [True]
   \<and> map error_count
        (tbl (consecutive_checks five_priced (priced_product 120)
                (example_monitor 0 [priced_product 120]))) = [Some 1]
   \<and> map product_id
        (findForCheck 60 100000
           (tbl (consecutive_checks five_priced (priced_product 120)
                   (example_monitor 0 [priced_product 120])))) = [1]"
  unfolding five_priced_table five_priced_none_succeeded
  by (simp add: findForCheck_def due_def priced_product_def example_product_def)

subsection \<open>One check at a time\<close>

lemma step_invariant:
  assumes "k \<le> 1" and "(currentCheck m \<noteq> None) = (k = 1)" and "step (m, k) ev = (m', k')"
  shows "k' \<le> 1 \<and> (currentCheck m' \<noteq> None) = (k' = 1)"
proof (cases ev)
  case Trigger
  then show ?thesis using assms
    by (auto simp: executeCheck_enter_def split: if_splits)
next
  case (Progress r)
  then show ?thesis using assms
    by (auto simp: push_result_def split: if_splits option.splits)
next
  case Finish
  then show ?thesis using assms
    by (auto simp: executeCheck_finally_def split: if_splits)
qed

lemma run_invariant:
  assumes "currentCheck m = None"
  shows "snd (run m evs) \<le> 1 \<and> (currentCheck (fst (run m evs)) \<noteq> None) = (snd (run m evs) = 1)"
proof (induction evs rule: rev_induct)
  case Nil
  then show ?case using assms by (simp add: run_def)
next
  case (snoc ev evs)
  obtain m1 k1 where r1: "run m evs = (m1, k1)" by (cases "run m evs")
  obtain m2 k2 where r2: "step (m1, k1) ev = (m2, k2)" by (cases "step (m1, k1) ev")
  have "run m (evs @ [ev]) = (m2, k2)" using r1 r2 by (simp add: run_def)
  moreover have "k2 \<le> 1 \<and> (currentCheck m2 \<noteq> None) = (k2 = 1)"
    using snoc.IH r1 step_invariant [OF _ _ r2] by simp
  ultimately show ?case by simp
qed

lemma trigger_in_flight: "currentCheck m \<noteq> None \<Longrightarrow> step (m, k) Trigger = (m, k)"
  by (simp add: executeCheck_enter_def)

lemma trigger_idle: "currentCheck m = None \<Longrightarrow> snd (step (m, k) Trigger) = k + 1"
  by (simp add: executeCheck_enter_def)

lemma finish_clears: "currentCheck (executeCheck_finally m) = None"
  by (simp add: executeCheck_finally_def)

text \<open>
  Claim C6. From an idle monitor, whatever the sequence of triggers, steps and ends of
  runs, at most one run of \<open>executeCheck\<close> is in flight, and one is in flight exactly
  when \<open>currentCheck\<close> is set. A trigger that arrives while a run is in flight changes
  nothing: it starts no run and leaves nothing behind to start one later. The end of the
  run in flight clears the guard, and the next trigger starts a run.
\<close>

theorem C6_one_cycle_at_a_time:
  "currentCheck m = None \<and> run m evs = (m', k) \<longrightarrow>
     k \<le> 1
     \<and> ((currentCheck m' \<noteq> None) = (k = 1))
     \<and> (k = 1 \<longrightarrow> run m (evs @ [Trigger]) = (m', 1)
                   \<and> run m (evs @ [Finish]) = (executeCheck_finally m', 0)
                   \<and> snd (run m (evs @ [Finish, Trigger])) = 1)
     \<and> (k = 0 \<longrightarrow> snd (run m (evs @ [Trigger])) = 1)"
proof
  assume h: "currentCheck m = None \<and> run m evs = (m', k)"
  then have i: "k \<le> 1 \<and> (currentCheck m' \<noteq> None) = (k = 1)"
    using run_invariant [of m evs] by simp
  have app: "\<And>more. run m (evs @ more) = foldl step (m', k) more"
    using h by (simp add: run_def)
  have a: "k = 1 \<longrightarrow> run m (evs @ [Trigger]) = (m', 1)"
    using i app trigger_in_flight [of m' k] by auto
  have b: "k = 1 \<longrightarrow> run m (evs @ [Finish]) = (executeCheck_finally m', 0)"
    using app by simp
  have c: "k = 1 \<longrightarrow> snd (run m (evs @ [Finish, Trigger])) = 1"
    using app trigger_idle [OF finish_clears, of m' 0] by simp
  have d: "k = 0 \<longrightarrow> snd (run m (evs @ [Trigger])) = 1"
    using i app trigger_idle [of m' 0] by auto
  show "k \<le> 1
     \<and> ((currentCheck m' \<noteq> None) = (k = 1))
     \<and> (k = 1 \<longrightarrow> run m (evs @ [Trigger]) = (m', 1)
                   \<and> run m (evs @ [Finish]) = (executeCheck_finally m', 0)
                   \<and> snd (run m (evs @ [Finish, Trigger])) = 1)
     \<and> (k = 0 \<longrightarrow> snd (run m (evs @ [Trigger])) = 1)"
    using i a b c d by blast
qed

text \<open>Two triggers on an idle monitor leave one run in flight; a third is dropped, and
  after the run ends a trigger starts the next.\<close>

theorem C6_one_cycle_at_a_time_witness:
  "currentCheck (example_monitor 0 []) = None
   \<and> snd (run (example_monitor 0 []) [Trigger, Trigger, Trigger]) = 1
   \<and> snd (run (example_monitor 0 []) [Trigger, Trigger, Finish]) = 0
   \<and> snd (run (example_monitor 0 []) [Trigger, Trigger, Finish, Trigger]) = 1"
proof -
  have h: "currentCheck (example_monitor 0 []) = None" by (simp add: example_monitor_def)
  obtain m' k where r: "run (example_monitor 0 []) [Trigger, Trigger] = (m', k)"
    by (cases "run (example_monitor 0 []) [Trigger, Trigger]")
  have k: "k = 1"
    using r by (auto simp: run_def example_monitor_def executeCheck_enter_def)
  show ?thesis
    using C6_one_cycle_at_a_time [of "example_monitor 0 []" "[Trigger, Trigger]" m' k] h r k
    by simp
qed

subsection \<open>Scraping in groups\<close>

lemma chunks_of_Nil [simp]: "chunks_of n [] = []"
  by (simp add: chunks_of.simps)

lemma chunks_of_step: "0 < n \<Longrightarrow> xs \<noteq> [] \<Longrightarrow> chunks_of n xs = take n xs # chunks_of n (drop n xs)"
  by (subst chunks_of.simps) simp

lemma chunk_loop_chunks_of:
  "0 < sz \<Longrightarrow> chunk_loop array sz i chunks = Some (chunks @ chunks_of sz (drop i array))"
proof (induction "length array - i" arbitrary: i chunks rule: less_induct)
  case less
  show ?case
  proof (cases "i < length array")
    case True
    then have ne: "drop i array \<noteq> []" by simp
    have "chunk_loop array sz i chunks
            = chunk_loop array sz (i + sz) (chunks @ [take sz (drop i array)])"
      using True by (subst chunk_loop.simps) simp
    also have "\<dots> = Some ((chunks @ [take sz (drop i array)]) @ chunks_of sz (drop (i + sz) array))"
      using less.prems True by (intro less.hyps) auto
    also have "drop (i + sz) array = drop sz (drop i array)"
      by (simp add: add.commute)
    finally show ?thesis using chunks_of_step [OF less.prems ne] by simp
  next
    case False
    then show ?thesis by (subst chunk_loop.simps) simp
  qed
qed

lemma chunkArray_chunks_of: "0 < sz \<Longrightarrow> chunkArray array sz = Some (chunks_of sz array)"
  by (simp add: chunkArray_def chunk_loop_chunks_of)

lemma concat_chunks_of: "0 < n \<Longrightarrow> concat (chunks_of n xs) = xs"
proof (induction n xs rule: chunks_of.induct)
  case (1 n xs)
  then show ?case by (cases "xs = []") (simp_all add: chunks_of_step)
qed

lemma chunks_of_sizes: "0 < n \<Longrightarrow> g \<in> set (chunks_of n xs) \<Longrightarrow> 0 < length g \<and> length g \<le> n"
proof (induction n xs rule: chunks_of.induct)
  case (1 n xs)
  then show ?case by (cases "xs = []") (auto simp: chunks_of_step)
qed

lemma ceil_step:
  fixes n L :: nat
  assumes "0 < n" and "0 < L"
  shows "(L + n - 1) div n = Suc ((L - n + n - 1) div n)"
proof (cases "L \<le> n")
  case True
  have "(L + n - 1) div n = 1"
    by (rule div_nat_eqI) (use assms True in auto)
  moreover have "(L - n + n - 1) div n = 0"
    using True assms by simp
  ultimately show ?thesis by simp
next
  case False
  then have "L + n - 1 = (L - n + n - 1) + n" by simp
  then have "(L + n - 1) div n = (L - n + n - 1) div n + 1"
    using assms(1) by (simp only: div_add_self2)
  then show ?thesis by simp
qed

lemma length_chunks_of: "0 < n \<Longrightarrow> length (chunks_of n xs) = (length xs + n - 1) div n"
proof (induction n xs rule: chunks_of.induct)
  case (1 n xs)
  show ?case
  proof (cases "xs = []")
    case True
    then show ?thesis using 1(2) by simp
  next
    case False
    have "length (chunks_of n (drop n xs)) = (length (drop n xs) + n - 1) div n"
      using 1 False by simp
    then have "length (chunks_of n xs) = Suc ((length xs - n + n - 1) div n)"
      using False 1(2) by (simp add: chunks_of_step)
    then show ?thesis using ceil_step [of n "length xs"] False 1(2) by simp
  qed
qed

lemma chunks_of_full: "0 < n \<Longrightarrow> Suc k < length (chunks_of n xs) \<Longrightarrow> length (chunks_of n xs ! k) = n"
proof (induction n xs arbitrary: k rule: chunks_of.induct)
  case (1 n xs)
  show ?case
  proof (cases "xs = []")
    case True
    then show ?thesis using 1(3) by simp
  next
    case False
    then have s: "chunks_of n xs = take n xs # chunks_of n (drop n xs)"
      using 1(2) by (simp add: chunks_of_step)
    show ?thesis
    proof (cases k)
      case 0
      have "chunks_of n (drop n xs) \<noteq> []" using 1(3) s by auto
      then have "drop n xs \<noteq> []" by auto
      then show ?thesis using 0 s by auto
    next
      case (Suc j)
      then show ?thesis using 1 False s by auto
    qed
  qed
qed

lemma batch_loop_result:
  assumes "never_throws cb" and "n = i + length chunks"
  shows "batch_loop scrape cb d tot n i chunks acc tr
           = (acc @ map (settled scrape) (concat chunks),
              tr @ tl (concat (map (\<lambda>g. [Waited d, Scraped g]) chunks)))"
  using assms(2)
proof (induction chunks arbitrary: i acc tr)
  case Nil
  then show ?case by simp
next
  case (Cons chunk rest)
  let ?tr2 = "if i + 1 < n then (tr @ [Scraped chunk]) @ [Waited d] else tr @ [Scraped chunk]"
  have nt: "(case cb of None \<Rightarrow> False | Some f \<Rightarrow> f (length (acc @ map (settled scrape) chunk)) tot) = False"
    using assms(1) by (simp add: never_throws_def split: option.splits)
  have ih: "batch_loop scrape cb d tot n (i + 1) rest (acc @ map (settled scrape) chunk) ?tr2
            = ((acc @ map (settled scrape) chunk) @ map (settled scrape) (concat rest),
               ?tr2 @ tl (concat (map (\<lambda>g. [Waited d, Scraped g]) rest)))"
    using Cons.prems by (intro Cons.IH) simp
  have w: "?tr2 @ tl (concat (map (\<lambda>g. [Waited d, Scraped g]) rest))
           = tr @ tl (concat (map (\<lambda>g. [Waited d, Scraped g]) (chunk # rest)))"
    using Cons.prems by (cases rest) simp_all
  show ?case using ih w nt by (simp add: Let_def)
qed

lemma waited_groups:
  "waited (tl (concat (map (\<lambda>g. [Waited d, Scraped g]) chunks))) = (length chunks - 1) * d"
proof (induction chunks)
  case Nil
  then show ?case by simp
next
  case (Cons g rest)
  then show ?case by (cases rest) simp_all
qed

lemma settled_explicit:
  "map (settled scrape) urls
     = map (\<lambda>u. case scrape u of
                   Inr v \<Rightarrow> v
                 | Inl message \<Rightarrow> \<lparr>price = None, name = None, success = False,
                                   error = Some message, url = u, domain = None\<rparr>) urls"
  by (simp add: settled_def)

lemma last_groups:
  "chunks \<noteq> [] \<Longrightarrow>
     last (tl (concat (map (\<lambda>g. [Waited d, Scraped g]) chunks))) = Scraped (last chunks)"
proof (induction chunks)
  case Nil
  then show ?case by simp
next
  case (Cons g rest)
  then show ?case by (cases rest) (simp_all add: last_append)
qed


text \<open>
  Claim C7. With a concurrency above zero (3 when not given) and a progress callback
  that is absent or returns normally, \<open>chunkArray\<close> ends and cuts the URLs into
  consecutive groups, in order: every group but the last has exactly the size of the
  concurrency, the last has between one and that many, and there are ceil(N/C) groups.
  \<open>scrapeBatch\<close> returns exactly one outcome for each URL, in the order of the URLs: the
  value the promise of the URL fulfils with, or, when it rejects, a failure record with
  the URL and the message of the reason; a rejection stops nothing. What the batch does
  is to scrape the groups in order with one wait of \<open>delayBetween\<close> (2000 when not given)
  between two consecutive groups: the last thing it does is to scrape the last group,
  with no wait after it, and the waits add up to (ceil(N/C) - 1) * D, the least the
  batch can take.
\<close>

theorem C7_scrapeBatch:
  "0 < c \<and> c = (case concurrency options of None \<Rightarrow> 3 | Some k \<Rightarrow> k)
   \<and> d = (case delayBetween options of None \<Rightarrow> 2000 | Some k \<Rightarrow> k)
   \<and> never_throws (onProgress options) \<longrightarrow>
   (\<exists>chunks results trace.
      chunkArray urls c = Some chunks
      \<and> concat chunks = urls
      \<and> (\<forall>g \<in> set chunks. 0 < length g \<and> length g \<le> c)
      \<and> (\<forall>k. Suc k < length chunks \<longrightarrow> length (chunks ! k) = c)
      \<and> length chunks = (length urls + c - 1) div c
      \<and> scrapeBatch scrape urls options = Some (results, trace)
      \<and> results = map (\<lambda>u. case scrape u of
                               Inr v \<Rightarrow> v
                             | Inl message \<Rightarrow>
                                 \<lparr>price = None, name = None, success = False,
                                  error = Some message, url = u, domain = None\<rparr>) urls
      \<and> length results = length urls
      \<and> trace = tl (concat (map (\<lambda>g. [Waited d, Scraped g]) chunks))
      \<and> (urls \<noteq> [] \<longrightarrow> last trace = Scraped (last chunks))
      \<and> waited trace = (length chunks - 1) * d
      \<and> (int ((length urls + c - 1) div c) - 1) * int d \<le> int (waited trace))"
proof
  assume h: "0 < c \<and> c = (case concurrency options of None \<Rightarrow> 3 | Some k \<Rightarrow> k)
   \<and> d = (case delayBetween options of None \<Rightarrow> 2000 | Some k \<Rightarrow> k)
   \<and> never_throws (onProgress options)"
  let ?chunks = "chunks_of c urls"
  let ?results = "map (\<lambda>u. case scrape u of
                               Inr v \<Rightarrow> v
                             | Inl message \<Rightarrow>
                                 \<lparr>price = None, name = None, success = False,
                                  error = Some message, url = u, domain = None\<rparr>) urls"
  let ?trace = "tl (concat (map (\<lambda>g. [Waited d, Scraped g]) ?chunks))"
  have ca: "chunkArray urls c = Some ?chunks"
    using h by (simp add: chunkArray_chunks_of)
  have cc: "concat ?chunks = urls" using h by (simp add: concat_chunks_of)
  have bl: "batch_loop scrape (onProgress options) d (length urls) (length ?chunks) 0 ?chunks [] []
            = ([] @ map (settled scrape) (concat ?chunks), [] @ ?trace)"
    using h by (intro batch_loop_result) simp_all
  have sb: "scrapeBatch scrape urls options = Some (?results, ?trace)"
    using h ca bl cc settled_explicit [of scrape urls] unfolding scrapeBatch_def
    by (simp add: Let_def)
  have sz: "\<forall>g \<in> set ?chunks. 0 < length g \<and> length g \<le> c"
    using h chunks_of_sizes by blast
  have fu: "\<forall>k. Suc k < length ?chunks \<longrightarrow> length (?chunks ! k) = c"
    using h chunks_of_full by blast
  have ln: "length ?chunks = (length urls + c - 1) div c"
    using h by (simp add: length_chunks_of)
  have ne: "urls \<noteq> [] \<longrightarrow> ?chunks \<noteq> []"
    using cc by auto
  have ls: "urls \<noteq> [] \<longrightarrow> last ?trace = Scraped (last ?chunks)"
    using ne last_groups by blast
  have wt: "waited ?trace = (length ?chunks - 1) * d"
    by (rule waited_groups)
  have bd: "(int ((length urls + c - 1) div c) - 1) * int d \<le> int (waited ?trace)"
  proof (cases "length ?chunks")
    case 0
    then show ?thesis using ln wt by simp
  next
    case (Suc j)
    then show ?thesis using ln wt by simp
  qed
  have lr: "length ?results = length urls" by simp
  show "\<exists>chunks results trace.
      chunkArray urls c = Some chunks
      \<and> concat chunks = urls
      \<and> (\<forall>g \<in> set chunks. 0 < length g \<and> length g \<le> c)
      \<and> (\<forall>k. Suc k < length chunks \<longrightarrow> length (chunks ! k) = c)
      \<and> length chunks = (length urls + c - 1) div c
      \<and> scrapeBatch scrape urls options = Some (results, trace)
      \<and> results = map (\<lambda>u. case scrape u of
                               Inr v \<Rightarrow> v
                             | Inl message \<Rightarrow>
                                 \<lparr>price = None, name = None, success = False,
                                  error = Some message, url = u, domain = None\<rparr>) urls
      \<and> length results = length urls
      \<and> trace = tl (concat (map (\<lambda>g. [Waited d, Scraped g]) chunks))
      \<and> (urls \<noteq> [] \<longrightarrow> last trace = Scraped (last chunks))
      \<and> waited trace = (length chunks - 1) * d
      \<and> (int ((length urls + c - 1) div c) - 1) * int d \<le> int (waited trace)"
    apply (rule exI [of _ ?chunks], rule exI [of _ ?results], rule exI [of _ ?trace])
    apply (intro conjI)
    apply (rule ca, rule cc, rule sz, rule fu, rule ln, rule sb, rule refl, rule lr, rule refl,
           rule ls, rule wt, rule bd)
    done
qed

lemma seven_chunks:
  "chunkArray seven_urls 3
     = Some [take 3 seven_urls, take 3 (drop 3 seven_urls), drop 6 seven_urls]"
  by (simp add: chunkArray_def chunk_loop.simps seven_urls_def)

text \<open>Seven URLs and no options: three groups with a wait of 2000 ms between them and
  none at the end, and seven outcomes, of which the second is the record made for the
  promise that rejects.\<close>

theorem C7_scrapeBatch_witness:
  "(0::nat) < 3 \<and> never_throws (onProgress default_options)
   \<and> (\<exists>results.
         scrapeBatch example_scrape seven_urls default_options
           = Some (results,
                   [Scraped (take 3 seven_urls), Waited 2000,
                    Scraped (take 3 (drop 3 seven_urls)), Waited 2000,
                    Scraped (drop 6 seven_urls)])
         \<and> length results = 7
         \<and> results ! 1 = \<lparr>price = None, name = None, success = False,
                           error = Some (js ''rejected''),
                           url = js ''https://a.example/2'', domain = None\<rparr>)"
proof -
  have h: "never_throws (onProgress default_options)"
    by (simp add: never_throws_def default_options_def)
  have n: "length seven_urls = 7" by (simp add: seven_urls_def)
  have p: "(0::nat) < 3 \<and> 3 = (case concurrency default_options of None \<Rightarrow> 3 | Some k \<Rightarrow> k)
   \<and> 2000 = (case delayBetween default_options of None \<Rightarrow> 2000 | Some k \<Rightarrow> k)
   \<and> never_throws (onProgress default_options)"
    using h by (simp add: default_options_def)
  note t = C7_scrapeBatch [where c = 3 and options = default_options and d = 2000
      and urls = seven_urls and scrape = example_scrape, THEN mp, OF p]
  from t obtain chunks results trace where
    a: "chunkArray seven_urls 3 = Some chunks"
    and b: "scrapeBatch example_scrape seven_urls default_options = Some (results, trace)"
    and r: "results = map (\<lambda>u. case example_scrape u of
                               Inr v \<Rightarrow> v
                             | Inl message \<Rightarrow>
                                 \<lparr>price = None, name = None, success = False,
                                  error = Some message, url = u, domain = None\<rparr>) seven_urls"
    and tr: "trace = tl (concat (map (\<lambda>g. [Waited 2000, Scraped g]) chunks))"
    by (elim exE conjE)
  have c: "chunks = [take 3 seven_urls, take 3 (drop 3 seven_urls), drop 6 seven_urls]"
    using a seven_chunks by simp
  have tr': "trace = [Scraped (take 3 seven_urls), Waited 2000,
                    Scraped (take 3 (drop 3 seven_urls)), Waited 2000,
                    Scraped (drop 6 seven_urls)]"
    unfolding tr c by simp
  have l: "length results = 7" using r n by simp
  have r1: "results ! 1 = \<lparr>price = None, name = None, success = False,
                           error = Some (js ''rejected''),
                           url = js ''https://a.example/2'', domain = None\<rparr>"
    unfolding r by (simp add: seven_urls_def example_scrape_def)
  have z: "(0::nat) < 3" by simp
  show ?thesis using z h b tr' l r1 by blast
qed

subsection \<open>The name of a product\<close>

lemma name_from_append:
  "name_from doc (as @ bs) =
     (case name_from doc as of
        Inl err \<Rightarrow> Inl err
      | Inr (Some n) \<Rightarrow> Inr (Some n)
      | Inr None \<Rightarrow> name_from doc bs)"
  by (induction as) (auto simp: Let_def split: sum.splits)

lemma name_from_Some:
  "name_from doc sels = Inr (Some n) \<Longrightarrow>
     \<exists>pre sel post els. sels = pre @ sel # post \<and> list_all (rejected doc) pre
        \<and> select doc sel = Inr els
        \<and> 0 < length (trim (first_text els)) \<and> length (trim (first_text els)) < 200
        \<and> n = cleanProductName (trim (first_text els))"
proof (induction sels)
  case Nil
  then show ?case by simp
next
  case (Cons s rest)
  then obtain els where e: "select doc s = Inr els"
    by (auto split: sum.splits)
  show ?case
  proof (cases "0 < length (trim (first_text els)) \<and> length (trim (first_text els)) < 200")
    case True
    then have "n = cleanProductName (trim (first_text els))"
      using Cons.prems e by (auto simp: Let_def)
    then have "s # rest = [] @ s # rest \<and> list_all (rejected doc) []
        \<and> select doc s = Inr els
        \<and> 0 < length (trim (first_text els)) \<and> length (trim (first_text els)) < 200
        \<and> n = cleanProductName (trim (first_text els))"
      using True e by simp
    then show ?thesis by blast
  next
    case False
    then have r: "rejected doc s" using e by (simp add: rejected_def)
    have "name_from doc rest = Inr (Some n)"
      using Cons.prems e False by (auto simp: Let_def)
    from Cons.IH [OF this] obtain pre sel post els' where
      p: "rest = pre @ sel # post \<and> list_all (rejected doc) pre
        \<and> select doc sel = Inr els'
        \<and> 0 < length (trim (first_text els')) \<and> length (trim (first_text els')) < 200
        \<and> n = cleanProductName (trim (first_text els'))"
      by blast
    then have "s # rest = (s # pre) @ sel # post \<and> list_all (rejected doc) (s # pre)
        \<and> select doc sel = Inr els'
        \<and> 0 < length (trim (first_text els')) \<and> length (trim (first_text els')) < 200
        \<and> n = cleanProductName (trim (first_text els'))"
      using r by simp
    then show ?thesis by blast
  qed
qed

lemma name_from_None: "name_from doc sels = Inr None \<Longrightarrow> list_all (rejected doc) sels"
proof (induction sels)
  case Nil
  then show ?case by simp
next
  case (Cons s rest)
  then obtain els where e: "select doc s = Inr els"
    by (auto split: sum.splits)
  have n: "\<not> (0 < length (trim (first_text els)) \<and> length (trim (first_text els)) < 200)"
    using Cons.prems e by (auto simp: Let_def split: if_splits)
  then have "name_from doc rest = Inr None"
    using Cons.prems e by (auto simp: Let_def)
  then show ?case using Cons.IH e n by (simp add: rejected_def)
qed

lemma extractProductName_cascade:
  "extractProductName doc cfg =
     (case name_from doc (name_selectors cfg) of
        Inl err \<Rightarrow> Inl err
      | Inr (Some n) \<Rightarrow> Inr (Some n)
      | Inr None \<Rightarrow>
          (case select doc ''title'' of
             Inl err \<Rightarrow> Inl err
           | Inr els \<Rightarrow>
               if 0 < length (trim (all_text els))
               then Inr (Some (cleanProductName (trim (all_text els))))
               else Inr None))"
  by (auto simp: extractProductName_def name_selectors_def name_from_append Let_def
           split: sum.splits option.splits)

lemma length_cleanProductName: "length (cleanProductName s) \<le> 150"
  by (simp add: cleanProductName_def)

lemma collapse_spaces_set: "c \<in> set (collapse_spaces s) \<Longrightarrow> is_space c \<Longrightarrow> c = 32"
proof (induction s rule: collapse_spaces.induct)
  case 1
  then show ?case by simp
next
  case (2 d ds)
  then show ?case by (auto split: if_splits)
qed

lemma set_trim: "c \<in> set (trim s) \<Longrightarrow> c \<in> set s"
proof -
  assume "c \<in> set (trim s)"
  then have "c \<in> set (dropWhile is_space (rev (dropWhile is_space s)))"
    by (simp add: trim_def)
  then have "c \<in> set (rev (dropWhile is_space s))" by (rule set_dropWhileD)
  then have "c \<in> set (dropWhile is_space s)" by simp
  then show "c \<in> set s" by (rule set_dropWhileD)
qed

lemma cleanProductName_chars:
  assumes "c \<in> set (cleanProductName s)"
  shows "c \<noteq> 124 \<and> c \<noteq> 8226 \<and> c \<noteq> 183 \<and> (is_space c \<longrightarrow> c = 32)"
proof -
  have "c \<in> set (map (\<lambda>c. if c = 124 \<or> c = 8226 \<or> c = 183 then 45 else c)
           (filter (\<lambda>c. c \<noteq> 10 \<and> c \<noteq> 13 \<and> c \<noteq> 9) (collapse_spaces s)))"
    using assms unfolding cleanProductName_def
    by (blast dest: in_set_takeD set_trim)
  then obtain b where b: "b \<in> set (collapse_spaces s)"
    and c: "c = (if b = 124 \<or> b = 8226 \<or> b = 183 then 45 else b)"
    by auto
  have "\<not> is_space 45" by (simp add: is_space_def)
  then show ?thesis using b c collapse_spaces_set [of b s] by (auto split: if_splits)
qed


lemma name_from_rejected: "list_all (rejected doc) sels \<Longrightarrow> name_from doc sels = Inr None"
proof (induction sels)
  case Nil
  then show ?case by simp
next
  case (Cons s rest)
  then show ?case by (auto simp: rejected_def Let_def split: sum.splits)
qed

lemma name_from_accepts:
  assumes "list_all (rejected doc) pre" and "select doc sel = Inr els"
    and "0 < length (trim (first_text els))" and "length (trim (first_text els)) < 200"
  shows "name_from doc (pre @ sel # post) = Inr (Some (cleanProductName (trim (first_text els))))"
  using assms name_from_rejected [of doc pre]
  by (simp add: name_from_append Let_def)

lemma name_from_throws:
  assumes "list_all (rejected doc) pre" and "select doc sel = Inl err"
  shows "name_from doc (pre @ sel # post) = Inl err"
  using assms name_from_rejected [of doc pre]
  by (simp add: name_from_append)

lemma collapse_word: "list_all (\<lambda>c. \<not> is_space c) u \<Longrightarrow> collapse_spaces (u @ r) = u @ collapse_spaces r"
  by (induction u) simp_all

lemma collapse_word_only: "list_all (\<lambda>c. \<not> is_space c) u \<Longrightarrow> collapse_spaces u = u"
  using collapse_word [of u "[]"] by simp

lemma dropWhile_word: "list_all (\<lambda>c. \<not> is_space c) v \<Longrightarrow> dropWhile is_space v = v"
  by (cases v) simp_all

lemma collapse_run:
  assumes "sp \<noteq> []" and "list_all is_space sp" and "list_all (\<lambda>c. \<not> is_space c) v"
  shows "collapse_spaces (sp @ v) = 32 # v"
proof (cases sp)
  case Nil
  then show ?thesis using assms(1) by simp
next
  case (Cons c sp')
  have "dropWhile is_space (sp' @ v) = dropWhile is_space v"
    using assms(2) Cons by (intro dropWhile_append2) (simp add: list_all_iff)
  then show ?thesis
    using assms Cons by (simp add: dropWhile_word collapse_word_only)
qed

lemma dropWhile_hd: "xs \<noteq> [] \<Longrightarrow> \<not> P (hd xs) \<Longrightarrow> dropWhile P xs = xs"
  by (cases xs) simp_all

lemma trim_id:
  assumes "s \<noteq> []" and "\<not> is_space (hd s)" and "\<not> is_space (last s)"
  shows "trim s = s"
proof -
  have a: "dropWhile is_space s = s" using assms(1,2) by (rule dropWhile_hd)
  have "rev s \<noteq> []" and "\<not> is_space (hd (rev s))"
    using assms(1,3) by (simp_all add: hd_rev)
  then have "dropWhile is_space (rev s) = rev s" by (rule dropWhile_hd)
  then show ?thesis using a by (simp add: trim_def)
qed

lemma trim_word: "list_all (\<lambda>c. \<not> is_space c) s \<Longrightarrow> trim s = s"
proof (cases "s = []")
  case True
  then show ?thesis by (simp add: trim_def)
next
  case False
  assume "list_all (\<lambda>c. \<not> is_space c) s"
  then have "\<not> is_space (hd s)" "\<not> is_space (last s)"
    using False by (simp_all add: list_all_iff)
  then show ?thesis using False by (rule trim_id [rotated])
qed

lemma spaces_9_10_13: "is_space 9" "is_space 10" "is_space 13" "is_space 32"
  by (simp_all add: is_space_def)

lemma plain_filter:
  "list_all plain u \<Longrightarrow> filter (\<lambda>c. c \<noteq> 10 \<and> c \<noteq> 13 \<and> c \<noteq> 9) u = u"
  using spaces_9_10_13 by (induction u) (auto simp: plain_def)

lemma plain_map:
  "list_all plain u \<Longrightarrow> map (\<lambda>c. if c = 124 \<or> c = 8226 \<or> c = 183 then 45 else c) u = u"
  by (induction u) (auto simp: plain_def)

lemma plain_word: "list_all plain u \<Longrightarrow> list_all (\<lambda>c. \<not> is_space c) u"
  by (induction u) (auto simp: plain_def)

lemma clean_plain: "list_all plain s \<Longrightarrow> cleanProductName s = take 150 s"
  by (simp add: cleanProductName_def collapse_word_only plain_word plain_filter plain_map trim_word)

lemma clean_run:
  assumes "u \<noteq> []" "v \<noteq> []" "list_all plain u" "list_all plain v"
    and "sp \<noteq> []" "list_all is_space sp"
  shows "cleanProductName (u @ sp @ v) = take 150 (u @ [32] @ v)"
proof -
  have c: "collapse_spaces (u @ sp @ v) = u @ 32 # v"
    using assms by (simp add: collapse_word collapse_run plain_word)
  have f: "filter (\<lambda>c. c \<noteq> 10 \<and> c \<noteq> 13 \<and> c \<noteq> 9) (u @ 32 # v) = u @ 32 # v"
    using assms by (simp add: plain_filter)
  have m: "map (\<lambda>c. if c = 124 \<or> c = 8226 \<or> c = 183 then 45 else c) (u @ 32 # v) = u @ 32 # v"
    using assms by (simp add: plain_map)
  have "\<not> is_space (hd (u @ 32 # v))" "\<not> is_space (last (u @ 32 # v))"
    using assms plain_word [of u] plain_word [of v] by (simp_all add: list_all_iff)
  then have t: "trim (u @ 32 # v) = u @ 32 # v"
    by (intro trim_id) simp_all
  show ?thesis unfolding cleanProductName_def c f m t by simp
qed

lemma clean_separator:
  assumes "u \<noteq> []" "v \<noteq> []" "list_all plain u" "list_all plain v"
    and "g = 124 \<or> g = 8226 \<or> g = 183"
  shows "cleanProductName (u @ [g] @ v) = take 150 (u @ [45] @ v)"
proof -
  have ng: "\<not> is_space g" using assms(5) by (auto simp: is_space_def)
  then have w: "list_all (\<lambda>c. \<not> is_space c) (u @ [g] @ v)"
    using assms plain_word [of u] plain_word [of v] by simp
  have c: "collapse_spaces (u @ [g] @ v) = u @ g # v"
    using w by (simp add: collapse_word_only)
  have f: "filter (\<lambda>c. c \<noteq> 10 \<and> c \<noteq> 13 \<and> c \<noteq> 9) (u @ g # v) = u @ g # v"
    using assms by (auto simp: plain_filter)
  have m: "map (\<lambda>c. if c = 124 \<or> c = 8226 \<or> c = 183 then 45 else c) (u @ g # v) = u @ 45 # v"
    using assms by (auto simp: plain_map)
  have "list_all (\<lambda>c. \<not> is_space c) (u @ 45 # v)"
    using assms plain_word [of u] plain_word [of v] by (simp add: is_space_def)
  then have t: "trim (u @ 45 # v) = u @ 45 # v" by (rule trim_word)
  show ?thesis unfolding cleanProductName_def c f m t by simp
qed


lemma extractProductName_Some:
  assumes a: "extractProductName doc cfg = Inr (Some n)"
  shows "(\<exists>pre sel post els.
             name_selectors cfg = pre @ sel # post \<and> list_all (rejected doc) pre
             \<and> select doc sel = Inr els
             \<and> 0 < length (trim (first_text els)) \<and> length (trim (first_text els)) < 200
             \<and> n = cleanProductName (trim (first_text els)))
          \<or> (list_all (rejected doc) (name_selectors cfg)
              \<and> (\<exists>els. select doc ''title'' = Inr els \<and> 0 < length (trim (all_text els))
                    \<and> n = cleanProductName (trim (all_text els))))"
proof (cases "name_from doc (name_selectors cfg)")
  case (Inl err)
  then show ?thesis using a by (simp add: extractProductName_cascade)
next
  case (Inr found)
  show ?thesis
  proof (cases found)
    case (Some k)
    then have "name_from doc (name_selectors cfg) = Inr (Some n)"
      using a Inr by (simp add: extractProductName_cascade)
    then show ?thesis using name_from_Some by blast
  next
    case None
    then have r: "list_all (rejected doc) (name_selectors cfg)"
      using Inr name_from_None by blast
    have "\<exists>els. select doc ''title'' = Inr els \<and> 0 < length (trim (all_text els))
                  \<and> n = cleanProductName (trim (all_text els))"
      using a Inr None
      by (auto simp: extractProductName_cascade split: sum.splits if_splits)
    then show ?thesis using r by blast
  qed
qed

lemma extractProductName_None:
  assumes a: "extractProductName doc cfg = Inr None"
  shows "list_all (rejected doc) (name_selectors cfg)
         \<and> (\<exists>els. select doc ''title'' = Inr els \<and> trim (all_text els) = [])"
proof
  have n: "name_from doc (name_selectors cfg) = Inr None"
    using a by (auto simp: extractProductName_cascade split: sum.splits option.splits)
  then show "list_all (rejected doc) (name_selectors cfg)"
    by (rule name_from_None)
  show "\<exists>els. select doc ''title'' = Inr els \<and> trim (all_text els) = []"
    using a n by (auto simp: extractProductName_cascade split: sum.splits if_splits)
qed

lemma name_from_Inl:
  "name_from doc sels = Inl err \<Longrightarrow>
     \<exists>pre sel post. sels = pre @ sel # post \<and> list_all (rejected doc) pre
        \<and> select doc sel = Inl err"
proof (induction sels)
  case Nil
  then show ?case by simp
next
  case (Cons s rest)
  show ?case
  proof (cases "select doc s")
    case (Inl e)
    then have "e = err" using Cons.prems by simp
    then have "s # rest = [] @ s # rest \<and> list_all (rejected doc) []
        \<and> select doc s = Inl err"
      using Inl by simp
    then show ?thesis by blast
  next
    case (Inr els)
    have n: "\<not> (0 < length (trim (first_text els)) \<and> length (trim (first_text els)) < 200)"
      using Cons.prems Inr by (auto simp: Let_def split: if_splits)
    then have r: "rejected doc s" using Inr by (simp add: rejected_def)
    have "name_from doc rest = Inl err"
      using Cons.prems Inr n by (auto simp: Let_def)
    from Cons.IH [OF this] obtain pre sel post where
      p: "rest = pre @ sel # post \<and> list_all (rejected doc) pre \<and> select doc sel = Inl err"
      by blast
    then have "s # rest = (s # pre) @ sel # post \<and> list_all (rejected doc) (s # pre)
        \<and> select doc sel = Inl err"
      using r by simp
    then show ?thesis by blast
  qed
qed

lemma extractProductName_selector:
  assumes "name_selectors cfg = pre @ sel # post" and "list_all (rejected doc) pre"
    and "select doc sel = Inr els"
    and "0 < length (trim (first_text els))" and "length (trim (first_text els)) < 200"
  shows "extractProductName doc cfg = Inr (Some (cleanProductName (trim (first_text els))))"
proof -
  have "name_from doc (name_selectors cfg) = Inr (Some (cleanProductName (trim (first_text els))))"
    unfolding assms(1) using assms(2-5) by (rule name_from_accepts)
  then show ?thesis by (simp add: extractProductName_cascade)
qed

lemma extractProductName_selector_throws:
  assumes "name_selectors cfg = pre @ sel # post" and "list_all (rejected doc) pre"
    and "select doc sel = Inl err"
  shows "extractProductName doc cfg = Inl err"
proof -
  have "name_from doc (name_selectors cfg) = Inl err"
    unfolding assms(1) using assms(2,3) by (rule name_from_throws)
  then show ?thesis by (simp add: extractProductName_cascade)
qed

lemma extractProductName_title:
  assumes "list_all (rejected doc) (name_selectors cfg)"
  shows "extractProductName doc cfg =
     (case select doc ''title'' of
        Inl err \<Rightarrow> Inl err
      | Inr els \<Rightarrow>
          if trim (all_text els) \<noteq> []
          then Inr (Some (cleanProductName (trim (all_text els))))
          else Inr None)"
proof -
  have "name_from doc (name_selectors cfg) = Inr None"
    using assms by (rule name_from_rejected)
  then show ?thesis by (simp add: extractProductName_cascade split: sum.splits)
qed

lemma extractProductName_Inl:
  assumes "extractProductName doc cfg = Inl err"
  shows "(\<exists>pre sel post. name_selectors cfg = pre @ sel # post
             \<and> list_all (rejected doc) pre \<and> select doc sel = Inl err)
         \<or> (list_all (rejected doc) (name_selectors cfg) \<and> select doc ''title'' = Inl err)"
proof (cases "name_from doc (name_selectors cfg)")
  case (Inl e)
  then have "e = err" using assms by (simp add: extractProductName_cascade)
  then show ?thesis using Inl name_from_Inl by blast
next
  case (Inr found)
  show ?thesis
  proof (cases found)
    case (Some k)
    then show ?thesis using assms Inr by (simp add: extractProductName_cascade)
  next
    case None
    then have r: "list_all (rejected doc) (name_selectors cfg)"
      using Inr name_from_None by blast
    have "select doc ''title'' = Inl err"
      using assms Inr None
      by (auto simp: extractProductName_cascade split: sum.splits if_splits)
    then show ?thesis using r by blast
  qed
qed

text \<open>
  Claim C8, amended. \<open>extractProductName\<close> tries the name selectors of the site, then
  the generic selectors, in order; a selector is rejected when its candidate, trimmed,
  is empty or has 200 characters or more. The result is determined in every case:

    \<^item> a name \<open>n\<close> is returned exactly when \<open>n\<close> is the cleaned candidate of the first
      selector that is not rejected, or every selector is rejected and \<open>n\<close> is the
      cleaned page title, whose trimmed text is not empty, whatever its length;
    \<^item> null is returned exactly when every selector is rejected and the trimmed title
      is empty;
    \<^item> an error is thrown exactly when the first selector that is not rejected, or the
      title after all selectors are rejected, throws it.

  Cleaning gives at most 150 characters, none of them a separator glyph or a white
  space other than the space; it leaves a string of plain characters as it is up to
  the cut at 150, turns a run of white space between two such strings into one
  space, and a separator glyph between them into a hyphen.
\<close>

theorem C8_extractProductName:
  "((extractProductName doc cfg = Inr (Some n)) =
      ((\<exists>pre sel post els.
           name_selectors cfg = pre @ sel # post \<and> list_all (rejected doc) pre
           \<and> select doc sel = Inr els
           \<and> 0 < length (trim (first_text els)) \<and> length (trim (first_text els)) < 200
           \<and> n = cleanProductName (trim (first_text els)))
       \<or> (list_all (rejected doc) (name_selectors cfg)
           \<and> (\<exists>els. select doc ''title'' = Inr els \<and> 0 < length (trim (all_text els))
                 \<and> n = cleanProductName (trim (all_text els))))))
   \<and> ((extractProductName doc cfg = Inr None) =
        (list_all (rejected doc) (name_selectors cfg)
         \<and> (\<exists>els. select doc ''title'' = Inr els \<and> trim (all_text els) = [])))
   \<and> ((extractProductName doc cfg = Inl err) =
        ((\<exists>pre sel post. name_selectors cfg = pre @ sel # post
             \<and> list_all (rejected doc) pre \<and> select doc sel = Inl err)
         \<or> (list_all (rejected doc) (name_selectors cfg) \<and> select doc ''title'' = Inl err)))
   \<and> name_selectors cfg =
        (case nameSelectors cfg of None \<Rightarrow> [] | Some l \<Rightarrow> l)
        @ [''h1'', ''.product-title'', ''.product-name'', ''#productTitle'', ''.item-title'',
           ''.title'', ''.product-info h1'', ''.product-header h1'',
           ''[data-testid=\"product-title\"]'']
   \<and> length (cleanProductName s) \<le> 150
   \<and> (\<forall>c \<in> set (cleanProductName s).
          c \<noteq> 124 \<and> c \<noteq> 8226 \<and> c \<noteq> 183 \<and> (is_space c \<longrightarrow> c = 32))
   \<and> (list_all plain s \<longrightarrow> cleanProductName s = take 150 s)
   \<and> (u \<noteq> [] \<and> v \<noteq> [] \<and> list_all plain u \<and> list_all plain v
        \<and> sp \<noteq> [] \<and> list_all is_space sp \<longrightarrow>
          cleanProductName (u @ sp @ v) = take 150 (u @ [32] @ v))
   \<and> (u \<noteq> [] \<and> v \<noteq> [] \<and> list_all plain u \<and> list_all plain v
        \<and> (g = 124 \<or> g = 8226 \<or> g = 183) \<longrightarrow>
          cleanProductName (u @ [g] @ v) = take 150 (u @ [45] @ v))"
proof (intro conjI impI)
  show "(extractProductName doc cfg = Inr (Some n)) =
      ((\<exists>pre sel post els.
           name_selectors cfg = pre @ sel # post \<and> list_all (rejected doc) pre
           \<and> select doc sel = Inr els
           \<and> 0 < length (trim (first_text els)) \<and> length (trim (first_text els)) < 200
           \<and> n = cleanProductName (trim (first_text els)))
       \<or> (list_all (rejected doc) (name_selectors cfg)
           \<and> (\<exists>els. select doc ''title'' = Inr els \<and> 0 < length (trim (all_text els))
                 \<and> n = cleanProductName (trim (all_text els)))))"
    (is "?l = (?a \<or> ?b)")
  proof
    assume ?l
    then show "?a \<or> ?b" by (rule extractProductName_Some)
  next
    assume "?a \<or> ?b"
    then show ?l
    proof
      assume ?a
      then show ?l using extractProductName_selector by blast
    next
      assume b: ?b
      then obtain els where e: "select doc ''title'' = Inr els"
        "0 < length (trim (all_text els))" "n = cleanProductName (trim (all_text els))"
        by blast
      from b have "list_all (rejected doc) (name_selectors cfg)" by (rule conjunct1)
      then show ?l using e by (simp add: extractProductName_title)
    qed
  qed
next
  show "(extractProductName doc cfg = Inr None) =
        (list_all (rejected doc) (name_selectors cfg)
         \<and> (\<exists>els. select doc ''title'' = Inr els \<and> trim (all_text els) = []))"
    (is "?l = ?r")
  proof
    assume ?l
    then show ?r by (rule extractProductName_None)
  next
    assume r: ?r
    then obtain els where e: "select doc ''title'' = Inr els" "trim (all_text els) = []"
      by blast
    from r have "list_all (rejected doc) (name_selectors cfg)" by (rule conjunct1)
    then show ?l using e by (simp add: extractProductName_title)
  qed
next
  show "(extractProductName doc cfg = Inl err) =
        ((\<exists>pre sel post. name_selectors cfg = pre @ sel # post
             \<and> list_all (rejected doc) pre \<and> select doc sel = Inl err)
         \<or> (list_all (rejected doc) (name_selectors cfg) \<and> select doc ''title'' = Inl err))"
    (is "?l = (?a \<or> ?b)")
  proof
    assume ?l
    then show "?a \<or> ?b" by (rule extractProductName_Inl)
  next
    assume "?a \<or> ?b"
    then show ?l
    proof
      assume ?a
      then show ?l using extractProductName_selector_throws by blast
    next
      assume ?b
      then show ?l by (simp add: extractProductName_title)
    qed
  qed
next
  show "name_selectors cfg =
        (case nameSelectors cfg of None \<Rightarrow> [] | Some l \<Rightarrow> l)
        @ [''h1'', ''.product-title'', ''.product-name'', ''#productTitle'', ''.item-title'',
           ''.title'', ''.product-info h1'', ''.product-header h1'',
           ''[data-testid=\"product-title\"]'']"
    by (simp add: name_selectors_def genericNameSelectors_def)
next
  show "length (cleanProductName s) \<le> 150" by (rule length_cleanProductName)
next
  show "\<forall>c \<in> set (cleanProductName s).
          c \<noteq> 124 \<and> c \<noteq> 8226 \<and> c \<noteq> 183 \<and> (is_space c \<longrightarrow> c = 32)"
    using cleanProductName_chars by blast
next
  assume "list_all plain s"
  then show "cleanProductName s = take 150 s" by (rule clean_plain)
next
  assume "u \<noteq> [] \<and> v \<noteq> [] \<and> list_all plain u \<and> list_all plain v
        \<and> sp \<noteq> [] \<and> list_all is_space sp"
  then show "cleanProductName (u @ sp @ v) = take 150 (u @ [32] @ v)"
    by (intro clean_run) simp_all
next
  assume "u \<noteq> [] \<and> v \<noteq> [] \<and> list_all plain u \<and> list_all plain v
        \<and> (g = 124 \<or> g = 8226 \<or> g = 183)"
  then show "cleanProductName (u @ [g] @ v) = take 150 (u @ [45] @ v)"
    by (intro clean_separator) simp_all
qed


text \<open>
  A page whose heading is "  Fone  | JBL " gets the name "Fone - JBL"; a page on
  which nothing matches gets null; "Fone  JBL" is cleaned to "Fone JBL" and
  "Fone|JBL" to "Fone-JBL".
\<close>

theorem C8_extractProductName_witness:
  "select h1_doc ''h1'' = Inr [h1_element]
   \<and> trim (first_text [h1_element]) = js ''Fone  | JBL''
   \<and> extractProductName h1_doc emptyConfig = Inr (Some (js ''Fone - JBL''))
   \<and> select blank_doc ''title'' = Inr []
   \<and> extractProductName blank_doc emptyConfig = Inr None
   \<and> cleanProductName (js ''Fone'' @ js ''  '' @ js ''JBL'') = js ''Fone JBL''
   \<and> cleanProductName (js ''Fone'' @ [124] @ js ''JBL'') = js ''Fone-JBL''"
proof -
  have s: "select h1_doc ''h1'' = Inr [h1_element]"
    by (simp add: h1_doc_def h1_element_def)
  have t: "trim (first_text [h1_element]) = js ''Fone  | JBL''"
    by (simp add: first_text_def h1_element_def trim_def is_space_def js_def)
  have c: "js ''Fone - JBL'' = cleanProductName (js ''Fone  | JBL'')"
    by (simp add: cleanProductName_def trim_def is_space_def js_def)
  have "name_selectors emptyConfig = [] @ ''h1'' # tl genericNameSelectors
        \<and> list_all (rejected h1_doc) [] \<and> select h1_doc ''h1'' = Inr [h1_element]
        \<and> 0 < length (trim (first_text [h1_element]))
        \<and> length (trim (first_text [h1_element])) < 200
        \<and> js ''Fone - JBL'' = cleanProductName (trim (first_text [h1_element]))"
    unfolding t using s c
    by (simp add: name_selectors_def emptyConfig_def genericNameSelectors_def js_def)
  then have a: "\<exists>pre sel post els.
           name_selectors emptyConfig = pre @ sel # post \<and> list_all (rejected h1_doc) pre
           \<and> select h1_doc sel = Inr els
           \<and> 0 < length (trim (first_text els)) \<and> length (trim (first_text els)) < 200
           \<and> js ''Fone - JBL'' = cleanProductName (trim (first_text els))"
    by blast
  have h: "extractProductName h1_doc emptyConfig = Inr (Some (js ''Fone - JBL''))"
    using C8_extractProductName [where doc = h1_doc and cfg = emptyConfig and n = "js ''Fone - JBL''",
        THEN conjunct1, THEN iffD2, OF disjI1, OF a] .
  have b: "select blank_doc ''title'' = Inr []"
    by (simp add: blank_doc_def)
  have "list_all (rejected blank_doc) (name_selectors emptyConfig)
        \<and> select blank_doc ''title'' = Inr [] \<and> trim (all_text []) = []"
    by (simp add: name_selectors_def emptyConfig_def genericNameSelectors_def rejected_def
                  blank_doc_def first_text_def all_text_def trim_def)
  then have r: "list_all (rejected blank_doc) (name_selectors emptyConfig)
        \<and> (\<exists>els. select blank_doc ''title'' = Inr els \<and> trim (all_text els) = [])"
    by blast
  have e: "extractProductName blank_doc emptyConfig = Inr None"
    using C8_extractProductName [where doc = blank_doc and cfg = emptyConfig,
        THEN conjunct2, THEN conjunct1, THEN iffD2, OF r] .
  have p: "js ''Fone'' \<noteq> [] \<and> js ''JBL'' \<noteq> [] \<and> list_all plain (js ''Fone'')
        \<and> list_all plain (js ''JBL'') \<and> js ''  '' \<noteq> [] \<and> list_all is_space (js ''  '')"
    by (simp add: plain_def is_space_def js_def)
  have "cleanProductName (js ''Fone'' @ js ''  '' @ js ''JBL'')
        = take 150 (js ''Fone'' @ [32] @ js ''JBL'')"
    using C8_extractProductName [where u = "js ''Fone''" and v = "js ''JBL''" and sp = "js ''  ''",
        THEN conjunct2, THEN conjunct2, THEN conjunct2, THEN conjunct2, THEN conjunct2,
        THEN conjunct2, THEN conjunct2, THEN conjunct1, THEN mp, OF p] .
  then have w: "cleanProductName (js ''Fone'' @ js ''  '' @ js ''JBL'') = js ''Fone JBL''"
    by (simp add: js_def)
  have q: "js ''Fone'' \<noteq> [] \<and> js ''JBL'' \<noteq> [] \<and> list_all plain (js ''Fone'')
        \<and> list_all plain (js ''JBL'') \<and> ((124::nat) = 124 \<or> (124::nat) = 8226 \<or> (124::nat) = 183)"
    by (simp add: plain_def is_space_def js_def)
  have "cleanProductName (js ''Fone'' @ [124] @ js ''JBL'')
        = take 150 (js ''Fone'' @ [45] @ js ''JBL'')"
    using C8_extractProductName [where u = "js ''Fone''" and v = "js ''JBL''" and g = 124,
        THEN conjunct2, THEN conjunct2, THEN conjunct2, THEN conjunct2, THEN conjunct2,
        THEN conjunct2, THEN conjunct2, THEN conjunct2, THEN mp, OF q] .
  then have x: "cleanProductName (js ''Fone'' @ [124] @ js ''JBL'') = js ''Fone-JBL''"
    by (simp add: js_def)
  show ?thesis using s t h b e w x by blast
qed

lemma trim_replicate: "\<not> is_space c \<Longrightarrow> trim (replicate n c) = replicate n c"
proof -
  assume c: "\<not> is_space c"
  have "dropWhile is_space (replicate n c) = replicate n c"
    using c by (cases n) simp_all
  then show ?thesis by (simp add: trim_def)
qed

lemma trim_long_title: "trim long_title = long_title"
  unfolding long_title_def by (rule trim_replicate) (simp add: is_space_def)

lemma long_title_name:
  "extractProductName long_title_doc emptyConfig = Inr (Some (cleanProductName long_title))"
proof -
  have "name_from long_title_doc (name_selectors emptyConfig) = Inr None"
    by (simp add: name_selectors_def emptyConfig_def genericNameSelectors_def long_title_doc_def
                  first_text_def trim_def)
  moreover have "select long_title_doc ''title'' = Inr [title_element]"
    by (simp add: long_title_doc_def)
  moreover have "trim (all_text [title_element]) = long_title"
    by (simp add: all_text_def title_element_def trim_long_title)
  moreover have "0 < length long_title" by (simp add: long_title_def)
  ultimately show ?thesis by (simp add: extractProductName_cascade)
qed

text \<open>
  The claim as it is written fails on a page whose only candidate is a title of 200
  characters: its trimmed length is not below 200, and it is accepted.
\<close>

theorem C8_counterexample:
  "select long_title_doc ''title'' = Inr [title_element]
   \<and> length (trim (all_text [title_element])) = 200
   \<and> extractProductName long_title_doc emptyConfig \<noteq> Inr None"
proof -
  have "trim (all_text [title_element]) = long_title"
    by (simp add: all_text_def title_element_def trim_long_title)
  then have "length (trim (all_text [title_element])) = 200"
    by (simp add: long_title_def)
  then show ?thesis using long_title_name by (simp add: long_title_doc_def)
qed

subsection \<open>Scraping one page\<close>


lemma truthy_Some: "truthy p = Some v \<Longrightarrow> p = Some v"
  by (simp add: truthy_def split: option.splits if_splits)

lemma try_attributes_positive: "try_attributes e as = Some v \<Longrightarrow> 0 < v"
proof (induction as)
  case Nil
  then show ?case by simp
next
  case (Cons a as)
  then show ?case
    by (auto split: option.splits if_splits dest!: truthy_Some parsePrice_positive)
qed

lemma try_elements_positive: "try_elements es = Some v \<Longrightarrow> 0 < v"
proof (induction es)
  case Nil
  then show ?case by simp
next
  case (Cons e es)
  then show ?case
    by (auto simp: Let_def split: option.splits if_splits
             dest!: truthy_Some parsePrice_positive try_attributes_positive)
qed

lemma tryExtractPrice_positive: "tryExtractPrice doc sel = Some v \<Longrightarrow> 0 < v"
  by (auto simp: tryExtractPrice_def split: sum.splits dest: try_elements_positive)

lemma try_selectors_positive: "try_selectors doc sels = Some v \<Longrightarrow> 0 < v"
proof (induction sels)
  case Nil
  then show ?case by simp
next
  case (Cons s sels)
  then show ?case
    by (auto split: option.splits dest!: truthy_Some tryExtractPrice_positive)
qed

lemma try_patterns_positive: "try_patterns doc is = Some v \<Longrightarrow> 0 < v"
proof (induction "is")
  case Nil
  then show ?case by simp
next
  case (Cons i "is")
  then show ?case
    by (auto split: option.splits dest!: truthy_Some parsePrice_positive)
qed

lemma extractPrice_positive:
  assumes "extractPrice doc cfg = Some v"
  shows "0 < v"
proof -
  let ?a = "try_selectors doc (case selectors cfg of None \<Rightarrow> [] | Some l \<Rightarrow> l)"
  let ?b = "try_selectors doc genericSelectors"
  let ?c = "try_patterns doc [0, 1, 2, 3, 4]"
  have "?a = Some v \<or> ?b = Some v \<or> ?c = Some v"
    using assms unfolding extractPrice_def
    by (cases ?a; cases ?b) (simp_all del: try_patterns.simps try_selectors.simps)
  then show ?thesis
    using try_selectors_positive try_patterns_positive by blast
qed

lemma extractData_result:
  "success (extractData load configs html dm)
     = (\<exists>v. price (extractData load configs html dm) = Some v \<and> 0 < v)
   \<and> (\<not> success (extractData load configs html dm) \<longrightarrow>
        price (extractData load configs html dm) = None
        \<and> error (extractData load configs html dm) \<noteq> None)
   \<and> (success (extractData load configs html dm) \<longrightarrow>
        error (extractData load configs html dm) = None)"
proof (cases "load html")
  case (Inl err)
  then show ?thesis by (simp add: extractData_def)
next
  case (Inr doc)
  let ?cfg = "case configs dm of None \<Rightarrow> emptyConfig | Some c \<Rightarrow> c"
  show ?thesis
  proof (cases "extractProductName doc ?cfg")
    case (Inl err)
    then show ?thesis using Inr by (simp add: extractData_def Let_def)
  next
    case n: (Inr n)
    show ?thesis
    proof (cases "extractPrice doc ?cfg")
      case None
      then show ?thesis using Inr n by (simp add: extractData_def Let_def)
    next
      case (Some v)
      then have "0 < v" by (rule extractPrice_positive)
      then show ?thesis using Inr n Some by (simp add: extractData_def Let_def)
    qed
  qed
qed

lemma scrapePrice_try_Inr:
  assumes "scrapePrice_try e u s = (Inr result, s1)"
  shows "\<exists>load configs html dm.
           success result = success (extractData load configs html dm)
           \<and> price result = price (extractData load configs html dm)
           \<and> error result = error (extractData load configs html dm)"
proof -
  let ?n = "normalizeUrl (new_URL e) u"
  let ?dm = "extractDomain (new_URL e) ?n"
  have v: "isValidUrl (new_URL e) u"
  proof (rule ccontr)
    assume "\<not> isValidUrl (new_URL e) u"
    then have "scrapePrice_try e u s = (Inl msg_invalid_url, s)"
      by (simp add: scrapePrice_try_def)
    then show False using assms by simp
  qed
  obtain out s2 where mr: "makeRequest e ?n s = (out, s2)"
    by (cases "makeRequest e ?n s")
  show ?thesis
  proof (cases out)
    case (Inl message)
    then have "scrapePrice_try e u s = (Inl message, s2)"
      using v mr by (simp add: scrapePrice_try_def Let_def)
    then show ?thesis using assms by simp
  next
    case (Inr html)
    let ?d = "extractData (cheerio_load e) (siteConfigs s2) html ?dm"
    have "fst (scrapePrice_try e u s)
            = Inr \<lparr>price = price ?d, name = name ?d, success = success ?d, error = error ?d,
                   url = ?n, domain = Some ?dm\<rparr>"
      using v mr Inr by (simp add: scrapePrice_try_def Let_def)
    then have "result = \<lparr>price = price ?d, name = name ?d, success = success ?d,
                          error = error ?d, url = ?n, domain = Some ?dm\<rparr>"
      using assms by simp
    then have "success result = success ?d \<and> price result = price ?d \<and> error result = error ?d"
      by simp
    then show ?thesis by blast
  qed
qed

text \<open>
  Claim C10. \<open>scrapePrice\<close> returns a result for every string, every behaviour of the
  network, of the parser of URLs and of the parser of pages, and every state of the
  scraper: each error thrown on the way is caught and becomes a result. In the result,
  \<open>success\<close> holds exactly when the price is a number above 0; when \<open>success\<close> is false
  the price is null and the error is a string; when it is true the error is null.
\<close>

theorem C10_scrapePrice_total:
  "(success (fst (scrapePrice e u s)) = (\<exists>v. price (fst (scrapePrice e u s)) = Some v \<and> 0 < v))
   \<and> (\<not> success (fst (scrapePrice e u s)) \<longrightarrow>
        price (fst (scrapePrice e u s)) = None \<and> error (fst (scrapePrice e u s)) \<noteq> None)
   \<and> (success (fst (scrapePrice e u s)) \<longrightarrow> error (fst (scrapePrice e u s)) = None)"
proof (cases "scrapePrice_try e u s")
  case (Pair outcome s1)
  show ?thesis
  proof (cases outcome)
    case (Inl message)
    have "scrapePrice e u s
            = (\<lparr>price = None, name = None, success = False, error = Some message,
                url = u, domain = Some (extractDomain (new_URL e) u)\<rparr>, s1)"
      using Pair Inl by (simp add: scrapePrice_def)
    then show ?thesis by simp
  next
    case (Inr result)
    have t: "scrapePrice_try e u s = (Inr result, s1)" using Pair Inr by simp
    from scrapePrice_try_Inr [OF t] obtain load configs html dm where
      d: "success result = success (extractData load configs html dm)
           \<and> price result = price (extractData load configs html dm)
           \<and> error result = error (extractData load configs html dm)"
      by (elim exE)
    have r: "fst (scrapePrice e u s) = result"
      using t by (simp add: scrapePrice_def)
    have eqs: "success (fst (scrapePrice e u s)) = success (extractData load configs html dm)"
      "price (fst (scrapePrice e u s)) = price (extractData load configs html dm)"
      "error (fst (scrapePrice e u s)) = error (extractData load configs html dm)"
      using d r by simp_all
    show ?thesis unfolding eqs by (rule extractData_result)
  qed
qed

lemma makeRequest_ok:
  "attempt (axios e (requests s) u) = Inr html \<Longrightarrow>
     makeRequest e u s = (Inr html, s\<lparr>requests := requests s + 1\<rparr>)"
  by (subst makeRequest.simps) (simp add: Let_def)

lemma makeRequest_propagates:
  "attempt (axios e (requests s) u) = Inl message \<Longrightarrow>
   \<not> (retryCount_of s u < maxRetries e \<and> shouldRetry message) \<Longrightarrow>
     makeRequest e u s = (Inl message, s\<lparr>requests := requests s + 1\<rparr>)"
  by (subst makeRequest.simps) (auto simp: Let_def)

lemma makeRequest_retries:
  "attempt (axios e (requests s) u) = Inl message \<Longrightarrow>
   retryCount_of s u < maxRetries e \<Longrightarrow> shouldRetry message \<Longrightarrow>
     makeRequest e u s =
       makeRequest e u
         (s\<lparr>requests := requests s + 1,
            retryAttempts := (retryAttempts s)(u \<mapsto> retryCount_of s u + 1),
            delays := delays s @ [2 ^ retryCount_of s u * 1000]\<rparr>)"
  by (subst makeRequest.simps) (simp add: Let_def)

lemmas string_defs = js_def toLowerCase_def lower_unit_def

lemma page_not_blocked: "\<not> isBlocked page"
  by (simp add: isBlocked_def page_def blockIndicators_def string_defs)

lemma attempt_page: "attempt (Response 200 (js ''OK'') (Html page)) = Inr page"
  by (simp add: attempt_def page_not_blocked)

lemma reset_not_retryable: "\<not> shouldRetry (js ''read ECONNRESET'')"
  by (simp add: shouldRetry_def retryableErrors_def string_defs)

lemma timeout_retryable: "shouldRetry (js ''timeout of 10000ms exceeded'')"
  by (simp add: shouldRetry_def retryableErrors_def string_defs)

lemma normalize_shop: "normalizeUrl example_URL shop_url = shop_normalized"
  by (simp add: normalizeUrl_def example_URL_def shop_url_def shop_normalized_def
                trackingParams_def js_def)

lemma valid_shop: "isValidUrl example_URL shop_url"
  by (simp add: isValidUrl_def example_URL_def js_def)

lemma shop_differs: "shop_url \<noteq> shop_normalized"
  by (simp add: shop_url_def shop_normalized_def js_def)

lemma extract_price_doc:
  "extractData (\<lambda>html. Inr price_doc) (\<lambda>d. None) page dm
     = \<lparr>price = Some (999 / 10), name = Some (js ''Fone JBL''), success = True, error = None\<rparr>"
proof -
  have p: "extractPrice price_doc emptyConfig = Some (999 / 10)"
    by (simp add: extractPrice_def emptyConfig_def genericSelectors_def tryExtractPrice_def
                  price_doc_def truthy_def trim_def is_space_def parse_defs)
  have n: "extractProductName price_doc emptyConfig = Inr (Some (js ''Fone JBL''))"
    by (simp add: extractProductName_def emptyConfig_def price_doc_def genericNameSelectors_def
                first_text_def trim_def is_space_def js_def cleanProductName_def Let_def)
  show ?thesis using p n by (simp add: extractData_def Let_def js_def)
qed

lemma invalid_not_scraped:
  "scrapePrice online_env (js ''loja'') new_scraper
     = (\<lparr>price = None, name = None, success = False, error = Some msg_invalid_url,
         url = js ''loja'', domain = Some (js ''unknown'')\<rparr>, new_scraper)"
  by (simp add: scrapePrice_def scrapePrice_try_def online_env_def isValidUrl_def
                extractDomain_def example_URL_def shop_url_def shop_normalized_def js_def)

lemma shop_scraped:
  "fst (scrapePrice online_env shop_url new_scraper)
     = \<lparr>price = Some (999 / 10), name = Some (js ''Fone JBL''), success = True, error = None,
        url = shop_normalized, domain = Some (js ''loja.example'')\<rparr>"
proof -
  have m: "makeRequest online_env shop_normalized new_scraper
             = (Inr page, new_scraper\<lparr>requests := requests new_scraper + 1\<rparr>)"
    by (rule makeRequest_ok) (simp add: online_env_def attempt_page)
  have d: "extractDomain example_URL shop_normalized = js ''loja.example''"
    by (simp add: extractDomain_def example_URL_def js_def)
  show ?thesis
    using m d valid_shop normalize_shop
    by (simp add: scrapePrice_def scrapePrice_try_def online_env_def new_scraper_def
                  extract_price_doc)
qed

text \<open>A string that is not a URL gives a failure with an error and no price; the address
  of the shop gives a success with no error.\<close>

theorem C10_scrapePrice_total_witness:
  "\<not> success (fst (scrapePrice online_env (js ''loja'') new_scraper))
   \<and> price (fst (scrapePrice online_env (js ''loja'') new_scraper)) = None
   \<and> error (fst (scrapePrice online_env (js ''loja'') new_scraper)) \<noteq> None
   \<and> success (fst (scrapePrice online_env shop_url new_scraper))
   \<and> error (fst (scrapePrice online_env shop_url new_scraper)) = None"
proof -
  have a: "\<not> success (fst (scrapePrice online_env (js ''loja'') new_scraper))"
    by (simp add: invalid_not_scraped)
  have b: "success (fst (scrapePrice online_env shop_url new_scraper))"
    by (simp add: shop_scraped)
  show ?thesis
    using a b C10_scrapePrice_total [of online_env "js ''loja''" new_scraper]
      C10_scrapePrice_total [of online_env shop_url new_scraper]
    by blast
qed

text \<open>
  Claim C4 does not hold of the code. A request that ends in a connection reset, with no
  retry recorded for the URL and three retries allowed, is not classified as retryable:
  the error is compared in lower case with indicators written in capitals.
  \<open>makeRequest\<close> makes one request, waits for nothing and propagates the error. And
  the retry counter is kept under the normalised URL but reset under the URL as it was
  given: after a timeout, one retry and a successful scrape of an address that
  normalisation changes, the counter of the address is still 1.
\<close>

theorem C4_retry_defects:
  "attempt (axios reset_env 0 shop_normalized) = Inl (js ''read ECONNRESET'')
   \<and> \<not> shouldRetry (js ''read ECONNRESET'')
   \<and> retryCount_of new_scraper shop_normalized < maxRetries reset_env
   \<and> makeRequest reset_env shop_normalized new_scraper
       = (Inl (js ''read ECONNRESET''), new_scraper\<lparr>requests := 1\<rparr>)
   \<and> delays (snd (makeRequest reset_env shop_normalized new_scraper)) = []
   \<and> success (fst (scrapePrice flaky_env shop_url new_scraper))
   \<and> delays (snd (scrapePrice flaky_env shop_url new_scraper)) = [1000]
   \<and> retryAttempts (snd (scrapePrice flaky_env shop_url new_scraper)) shop_normalized = Some 1"
proof -
  have a: "attempt (axios reset_env 0 shop_normalized) = Inl (js ''read ECONNRESET'')"
    by (simp add: reset_env_def online_env_def attempt_def)
  have b: "retryCount_of new_scraper shop_normalized < maxRetries reset_env"
    by (simp add: retryCount_of_def new_scraper_def reset_env_def online_env_def)
  have c: "makeRequest reset_env shop_normalized new_scraper
            = (Inl (js ''read ECONNRESET''), new_scraper\<lparr>requests := requests new_scraper + 1\<rparr>)"
    by (rule makeRequest_propagates [where message = "js ''read ECONNRESET''"])
       (simp_all add: a new_scraper_def reset_not_retryable)
  have c': "makeRequest reset_env shop_normalized new_scraper
            = (Inl (js ''read ECONNRESET''), new_scraper\<lparr>requests := 1\<rparr>)"
    using c by (simp add: new_scraper_def)
  let ?s1 = "new_scraper\<lparr>requests := requests new_scraper + 1,
            retryAttempts := (retryAttempts new_scraper)(shop_normalized \<mapsto> retryCount_of new_scraper shop_normalized + 1),
            delays := delays new_scraper @ [2 ^ retryCount_of new_scraper shop_normalized * 1000]\<rparr>"
  have f1: "makeRequest flaky_env shop_normalized new_scraper
            = makeRequest flaky_env shop_normalized ?s1"
    by (rule makeRequest_retries [where message = "js ''timeout of 10000ms exceeded''"])
       (simp_all add: flaky_env_def online_env_def new_scraper_def attempt_def
                      retryCount_of_def timeout_retryable)
  have f2: "makeRequest flaky_env shop_normalized ?s1
            = (Inr page, ?s1\<lparr>requests := requests ?s1 + 1\<rparr>)"
    by (rule makeRequest_ok)
       (simp add: flaky_env_def online_env_def new_scraper_def attempt_page)
  have d: "extractDomain example_URL shop_normalized = js ''loja.example''"
    by (simp add: extractDomain_def example_URL_def js_def)
  have v: "isValidUrl (new_URL flaky_env) shop_url"
    using valid_shop by (simp add: flaky_env_def online_env_def)
  have n: "normalizeUrl (new_URL flaky_env) shop_url = shop_normalized"
    using normalize_shop by (simp add: flaky_env_def online_env_def)
  have sp: "scrapePrice flaky_env shop_url new_scraper
            = (\<lparr>price = Some (999 / 10), name = Some (js ''Fone JBL''), success = True,
                error = None, url = shop_normalized, domain = Some (js ''loja.example'')\<rparr>,
               (?s1\<lparr>requests := requests ?s1 + 1\<rparr>)
                 \<lparr>retryAttempts := (retryAttempts (?s1\<lparr>requests := requests ?s1 + 1\<rparr>))
                                      (shop_url := None)\<rparr>)"
    using v n f1 f2 d
    by (simp add: scrapePrice_def scrapePrice_try_def Let_def flaky_env_def online_env_def
                  new_scraper_def extract_price_doc)
  have e: "success (fst (scrapePrice flaky_env shop_url new_scraper))"
    by (simp add: sp)
  have g: "delays (snd (scrapePrice flaky_env shop_url new_scraper)) = [1000]"
    by (subst sp) (simp add: new_scraper_def retryCount_of_def)
  have h: "retryAttempts (snd (scrapePrice flaky_env shop_url new_scraper)) shop_normalized = Some 1"
    using shop_differs by (subst sp) (simp add: new_scraper_def retryCount_of_def)
  have k: "delays (snd (makeRequest reset_env shop_normalized new_scraper)) = []"
    by (subst c') (simp add: new_scraper_def)
  show ?thesis using a b c' k e g h reset_not_retryable by blast
qed

subsection \<open>The end of a check cycle\<close>
















end
